theory Spec2Isabelle
  imports Complex_Main "HOL-Library.AList"
begin

section \<open>Values of the host language\<close>

text \<open>
  A decoder receives a value of type \<^verbatim>\<open>unknown\<close>. The model covers \<^verbatim>\<open>undefined\<close>,
  \<^verbatim>\<open>null\<close>, booleans, numbers, strings, arrays and ordinary objects.

  An ordinary object is its prototype and the list of its own properties, in the order
  the host enumerates them: array indices first, ascending, then the other keys in order
  of creation. The prototype is \<^verbatim>\<open>Object.prototype\<close>, which every object literal and
  every object made by \<^verbatim>\<open>JSON.parse\<close> has, or a value: \<^verbatim>\<open>null\<close> or another object. An
  array is the list of its elements and the list of its other own properties; its
  prototype is \<^verbatim>\<open>Array.prototype\<close>, and a hole is kept as \<^verbatim>\<open>undefined\<close>, which is what
  reading it gives.

  Every property is an enumerable, writable data property and every object is
  extensible. Accessors other than \<^verbatim>\<open>__proto__\<close> of \<^verbatim>\<open>Object.prototype\<close>, frozen objects,
  symbols, proxies, functions and cyclic structures are outside the model. The built-in
  prototypes are not values of the model and their methods are not modelled: reading a
  key that only a built-in prototype defines gives \<^verbatim>\<open>undefined\<close> here.

  A number is a finite rational or one of the three special values; no rounding to a
  double is modelled.
\<close>

datatype jnumber = Finite rat | NaN | PosInfinity | NegInfinity

datatype 'v prototype = ObjectPrototype | Proto 'v

datatype jsv =
    JUndefined
  | JNull
  | JBool bool
  | JNum jnumber
  | JStr string
  | JArray "jsv list" "(string \<times> jsv) list"
  | JObject "jsv prototype" "(string \<times> jsv) list"

text \<open>An array without further properties, and an object with the default prototype.\<close>

abbreviation JArr :: "jsv list \<Rightarrow> jsv" where
  "JArr us \<equiv> JArray us []"

abbreviation JObj :: "(string \<times> jsv) list \<Rightarrow> jsv" where
  "JObj ps \<equiv> JObject ObjectPrototype ps"

text \<open>The value of an own property in a list of properties, \<^verbatim>\<open>undefined\<close> when absent.\<close>

definition get_prop :: "(string \<times> jsv) list \<Rightarrow> string \<Rightarrow> jsv" where
  "get_prop ps k = (case map_of ps k of None \<Rightarrow> JUndefined | Some v \<Rightarrow> v)"

text \<open>\<^verbatim>\<open>us[i]\<close> on an array: the element, \<^verbatim>\<open>undefined\<close> when \<^verbatim>\<open>i\<close> is out of range.\<close>

definition get_index :: "jsv list \<Rightarrow> nat \<Rightarrow> jsv" where
  "get_index us i = (if i < length us then us ! i else JUndefined)"

text \<open>\<^verbatim>\<open>Number.isInteger\<close>.\<close>

fun isInteger :: "jnumber \<Rightarrow> bool" where
  "isInteger (Finite q) = (of_int \<lfloor>q\<rfloor> = q)"
| "isInteger NaN = False"
| "isInteger PosInfinity = False"
| "isInteger NegInfinity = False"

text \<open>\<^verbatim>\<open>Array.prototype.join\<close> on an array of strings.\<close>

fun join :: "string \<Rightarrow> string list \<Rightarrow> string" where
  "join sep [] = []"
| "join sep [x] = x"
| "join sep (x # y # ys) = x @ sep @ join sep (y # ys)"

text \<open>
  \<^verbatim>\<open>JSON.stringify\<close> applied to a string: the string in double quotes, with the quote,
  the backslash and the control characters below U+0020 escaped. A \<^typ>\<open>char\<close> is one
  code unit below 256.
\<close>

definition hex_digit :: "nat \<Rightarrow> char" where
  "hex_digit n = ''0123456789abcdef'' ! (n mod 16)"

definition quote_char :: "char \<Rightarrow> string" where
  "quote_char c =
     (if c = CHR 0x22 then [CHR 0x5C, CHR 0x22]
      else if c = CHR 0x5C then [CHR 0x5C, CHR 0x5C]
      else if c = CHR 0x08 then [CHR 0x5C, CHR ''b'']
      else if c = CHR 0x0C then [CHR 0x5C, CHR ''f'']
      else if c = CHR 0x0A then [CHR 0x5C, CHR ''n'']
      else if c = CHR 0x0D then [CHR 0x5C, CHR ''r'']
      else if c = CHR 0x09 then [CHR 0x5C, CHR ''t'']
      else if of_char c < (32 :: nat)
        then [CHR 0x5C, CHR ''u'', CHR ''0'', CHR ''0'',
              hex_digit (of_char c div 16), hex_digit (of_char c)]
      else [c])"

definition stringify_string :: "string \<Rightarrow> string" where
  "stringify_string s = [CHR 0x22] @ concat (map quote_char s) @ [CHR 0x22]"

text \<open>A non-negative integer index in a template literal: its decimal digits.\<close>

definition digit :: "nat \<Rightarrow> char" where
  "digit n = ''0123456789'' ! (n mod 10)"

fun show_nat :: "nat \<Rightarrow> string" where
  "show_nat n = (if n < 10 then [digit n] else show_nat (n div 10) @ [digit n])"

declare show_nat.simps [simp del]

section \<open>Properties of objects\<close>

subsection \<open>Keys\<close>

text \<open>
  The value of a string of digits in base \<open>b\<close>; \<open>None\<close> when the string is empty or has
  another character.
\<close>

definition digit_value :: "nat \<Rightarrow> char \<Rightarrow> nat option" where
  "digit_value b c =
     (let n = (of_char c :: nat);
          d = (if 48 \<le> n \<and> n \<le> 57 then Some (n - 48)
               else if 97 \<le> n \<and> n \<le> 102 then Some (n - 87)
               else if 65 \<le> n \<and> n \<le> 70 then Some (n - 55)
               else None)
      in case d of None \<Rightarrow> None | Some x \<Rightarrow> if x < b then Some x else None)"

fun digits_value :: "nat \<Rightarrow> nat \<Rightarrow> string \<Rightarrow> nat option" where
  "digits_value b acc [] = Some acc"
| "digits_value b acc (c # cs) =
     (case digit_value b c of
        None \<Rightarrow> None
      | Some d \<Rightarrow> digits_value b (b * acc + d) cs)"

definition digits_nat :: "nat \<Rightarrow> string \<Rightarrow> nat option" where
  "digits_nat b s = (if s = [] then None else digits_value b 0 s)"

text \<open>
  A key is an array index when it is the canonical decimal form of an integer from \<open>0\<close> to
  \<open>2\<^sup>3\<^sup>2 - 2\<close>: converting it to a number and back gives the same string.
\<close>

definition array_index :: "string \<Rightarrow> nat option" where
  "array_index k =
     (case digits_nat 10 k of
        None \<Rightarrow> None
      | Some n \<Rightarrow> if show_nat n = k \<and> n < 4294967295 then Some n else None)"

text \<open>
  A new own property takes its place in the enumeration order: an array index goes
  before the first key that is not a smaller index, any other key goes last. An existing
  property keeps its place and takes the new value.
\<close>

fun insert_index :: "nat \<Rightarrow> string \<Rightarrow> 'v \<Rightarrow> (string \<times> 'v) list \<Rightarrow> (string \<times> 'v) list" where
  "insert_index i k v [] = [(k, v)]"
| "insert_index i k v (p # ps) =
     (case array_index (fst p) of
        None \<Rightarrow> (k, v) # p # ps
      | Some j \<Rightarrow> if j < i then p # insert_index i k v ps else (k, v) # p # ps)"

definition define_own :: "string \<Rightarrow> 'v \<Rightarrow> (string \<times> 'v) list \<Rightarrow> (string \<times> 'v) list" where
  "define_own k v ps =
     (case array_index k of
        None \<Rightarrow> AList.update k v ps
      | Some i \<Rightarrow> if k \<in> set (map fst ps) then AList.update k v ps else insert_index i k v ps)"

subsection \<open>Reading a property\<close>

text \<open>
  The data property \<open>k\<close> names on a value or along its prototype chain. An array has its
  elements under the array indices and its length under \<^verbatim>\<open>length\<close>.
\<close>

fun lookup_chain :: "jsv \<Rightarrow> string \<Rightarrow> jsv option" where
  "lookup_chain (JObject ObjectPrototype ps) k = map_of ps k"
| "lookup_chain (JObject (Proto q) ps) k =
     (case map_of ps k of
        Some v \<Rightarrow> Some v
      | None \<Rightarrow> lookup_chain q k)"
| "lookup_chain (JArray us ps) k =
     (case array_index k of
        Some i \<Rightarrow> if i < length us then Some (us ! i) else None
      | None \<Rightarrow> if k = ''length'' then Some (JNum (Finite (of_nat (length us)))) else map_of ps k)"
| "lookup_chain _ k = None"

text \<open>The prototype chain of the value ends at a built-in prototype, not at \<^verbatim>\<open>null\<close>.\<close>

fun ends_at_builtin :: "jsv \<Rightarrow> bool" where
  "ends_at_builtin (JObject ObjectPrototype ps) = True"
| "ends_at_builtin (JObject (Proto q) ps) = ends_at_builtin q"
| "ends_at_builtin (JArray us ps) = True"
| "ends_at_builtin _ = False"

text \<open>
  The key \<^verbatim>\<open>__proto__\<close> resolves to the accessor of \<^verbatim>\<open>Object.prototype\<close>: no object of the
  chain has a data property of that name, and the chain reaches \<^verbatim>\<open>Object.prototype\<close>.
\<close>

definition inherits_accessor :: "jsv \<Rightarrow> bool" where
  "inherits_accessor r = (lookup_chain r ''__proto__'' = None \<and> ends_at_builtin r)"

text \<open>
  \<^verbatim>\<open>r[k]\<close>: the data property found first along the chain. Through the accessor,
  \<^verbatim>\<open>__proto__\<close> reads the prototype of \<open>r\<close>, which is a value of the model when it is not
  built-in. Anything else is \<^verbatim>\<open>undefined\<close>.
\<close>

fun prototype_value :: "jsv \<Rightarrow> jsv" where
  "prototype_value (JObject (Proto q) ps) = q"
| "prototype_value _ = JUndefined"

definition get :: "jsv \<Rightarrow> string \<Rightarrow> jsv" where
  "get r k =
     (case lookup_chain r k of
        Some v \<Rightarrow> v
      | None \<Rightarrow> if k = ''__proto__'' \<and> ends_at_builtin r then prototype_value r else JUndefined)"

text \<open>
  The keys \<^verbatim>\<open>for (const k in r)\<close> visits: the own keys, then those of the prototype
  chain that no nearer object has.
\<close>

fun for_in_keys :: "jsv \<Rightarrow> string list" where
  "for_in_keys (JObject ObjectPrototype ps) = map fst ps"
| "for_in_keys (JObject (Proto q) ps) =
     map fst ps @ filter (\<lambda>k. k \<notin> set (map fst ps)) (for_in_keys q)"
| "for_in_keys (JArray us ps) = map show_nat [0..<length us] @ map fst ps"
| "for_in_keys _ = []"

subsection \<open>Assigning a property\<close>

text \<open>\<^verbatim>\<open>typeof v === 'object' && v !== null\<close>.\<close>

fun is_object :: "jsv \<Rightarrow> bool" where
  "is_object (JObject p ps) = True"
| "is_object (JArray us ps) = True"
| "is_object _ = False"

text \<open>
  An ordinary object under construction: its prototype and its own properties.
  \<^verbatim>\<open>{}\<close> is \<open>new_object\<close>.
\<close>

type_synonym object = "jsv prototype \<times> (string \<times> jsv) list"

definition new_object :: object where
  "new_object = (ObjectPrototype, [])"

definition object_value :: "object \<Rightarrow> jsv" where
  "object_value a = JObject (fst a) (snd a)"

text \<open>
  \<^verbatim>\<open>a[k] = v\<close> on an ordinary object. The assignment sets the own property \<open>k\<close>, except
  when \<open>k\<close> is \<^verbatim>\<open>__proto__\<close> and resolves to the accessor of \<^verbatim>\<open>Object.prototype\<close>: the
  setter makes \<open>v\<close> the prototype of \<open>a\<close> when \<open>v\<close> is an object or \<^verbatim>\<open>null\<close>, does nothing
  otherwise, and creates no property. A value does not contain the new object \<open>a\<close>, so
  the setter never refuses a cycle.
\<close>

definition set_property :: "object \<Rightarrow> string \<Rightarrow> jsv \<Rightarrow> object" where
  "set_property a k v =
     (if k = ''__proto__'' \<and> inherits_accessor (object_value a) then
        (if is_object v \<or> v = JNull then (Proto v, snd a) else a)
      else (fst a, define_own k v (snd a)))"

subsection \<open>Assigning a string to a property of any value\<close>

text \<open>
  The number a string converts to: optional white space around a numeric literal, which
  is a binary, octal or hexadecimal integer, or a decimal with optional sign, fraction
  and exponent, or a signed \<^verbatim>\<open>Infinity\<close>; the empty string is \<open>0\<close>, anything else is \<open>NaN\<close>.
\<close>

definition is_white_space :: "char \<Rightarrow> bool" where
  "is_white_space c =
     (c \<in> set [CHR 0x09, CHR 0x0A, CHR 0x0B, CHR 0x0C, CHR 0x0D, CHR 0x20, CHR 0xA0])"

definition trim :: "string \<Rightarrow> string" where
  "trim s = rev (dropWhile is_white_space (rev (dropWhile is_white_space s)))"

fun signed_digits :: "string \<Rightarrow> int option" where
  "signed_digits [] = None"
| "signed_digits (c # cs) =
     (if c = CHR ''-'' then map_option (\<lambda>n. - int n) (digits_nat 10 cs)
      else if c = CHR ''+'' then map_option int (digits_nat 10 cs)
      else map_option int (digits_nat 10 (c # cs)))"

definition exponent_part :: "string \<Rightarrow> int option" where
  "exponent_part x = (case x of [] \<Rightarrow> Some 0 | e # ds \<Rightarrow> signed_digits ds)"

definition scale10 :: "rat \<Rightarrow> int \<Rightarrow> rat" where
  "scale10 q e = (if 0 \<le> e then q * 10 ^ nat e else q / 10 ^ nat (- e))"

definition unsigned_decimal :: "string \<Rightarrow> rat option" where
  "unsigned_decimal s =
     (let m = takeWhile (\<lambda>c. c \<noteq> CHR ''e'' \<and> c \<noteq> CHR ''E'') s;
          x = drop (length m) s;
          i = takeWhile (\<lambda>c. c \<noteq> CHR ''.'') m;
          f = drop (length i + 1) m
      in
      if i = [] \<and> f = [] then None
      else
        case (digits_value 10 0 i, digits_value 10 0 f, exponent_part x) of
          (Some a, Some b, Some e) \<Rightarrow>
            Some (scale10 (of_nat a + of_nat b / 10 ^ length f) e)
        | _ \<Rightarrow> None)"

definition radix_prefix :: "string \<Rightarrow> nat option" where
  "radix_prefix t =
     (if take 2 t \<in> set [''0x'', ''0X''] then Some 16
      else if take 2 t \<in> set [''0o'', ''0O''] then Some 8
      else if take 2 t \<in> set [''0b'', ''0B''] then Some 2
      else None)"

definition string_to_number :: "string \<Rightarrow> jnumber" where
  "string_to_number s =
     (case trim s of
        [] \<Rightarrow> Finite 0
      | c # cs \<Rightarrow>
          (case radix_prefix (c # cs) of
             Some b \<Rightarrow>
               (case digits_nat b (drop 1 cs) of None \<Rightarrow> NaN | Some n \<Rightarrow> Finite (of_nat n))
           | None \<Rightarrow>
               (let body = (if c = CHR ''-'' \<or> c = CHR ''+'' then cs else c # cs) in
                if body = ''Infinity'' then (if c = CHR ''-'' then NegInfinity else PosInfinity)
                else
                  case unsigned_decimal body of
                    None \<Rightarrow> NaN
                  | Some q \<Rightarrow> Finite (if c = CHR ''-'' then - q else q))))"

text \<open>
  The length an array takes when a string is assigned to \<^verbatim>\<open>length\<close>: the number the
  string converts to, when that is an integer from \<open>0\<close> to \<open>2\<^sup>3\<^sup>2 - 1\<close>. Otherwise the
  assignment raises a RangeError.
\<close>

definition string_to_length :: "string \<Rightarrow> nat option" where
  "string_to_length s =
     (case string_to_number s of
        Finite q \<Rightarrow>
          if isInteger (Finite q) \<and> 0 \<le> q \<and> q \<le> 4294967295 then Some (nat \<lfloor>q\<rfloor>) else None
      | _ \<Rightarrow> None)"

text \<open>An array after \<^verbatim>\<open>us[i] = v\<close>, and after its length is set to \<open>n\<close>.\<close>

definition store_index :: "'v \<Rightarrow> 'v list \<Rightarrow> nat \<Rightarrow> 'v \<Rightarrow> 'v list" where
  "store_index hole us i v =
     (if i < length us then us[i := v] else us @ replicate (i - length us) hole @ [v])"

definition resize :: "'v \<Rightarrow> nat \<Rightarrow> 'v list \<Rightarrow> 'v list" where
  "resize hole n us = take n us @ replicate (n - length us) hole"

section \<open>The error model\<close>

text \<open>
  Modelled from the spec: the module \<^verbatim>\<open>DecodeError\<close> (the type and its constructors
  \<^verbatim>\<open>leaf\<close>, \<^verbatim>\<open>indexed\<close>, \<^verbatim>\<open>labeled\<close>, \<^verbatim>\<open>and\<close>, \<^verbatim>\<open>or\<close>) is imported by the source and
  not part of it. The spec gives the five variants and their fields. The type of the
  \<open>actual\<close> field is a parameter: a value, or a reference where values live in a store.
\<close>

datatype 'v DecodeError =
    Leaf string 'v
  | Indexed string 'v "(nat \<times> 'v DecodeError) list"
  | Labeled string 'v "(string \<times> 'v DecodeError) list"
  | And string 'v "'v DecodeError list"
  | Or string 'v "'v DecodeError list"

fun expected_of :: "'v DecodeError \<Rightarrow> string" where
  "expected_of (Leaf x a) = x"
| "expected_of (Indexed x a es) = x"
| "expected_of (Labeled x a es) = x"
| "expected_of (And x a es) = x"
| "expected_of (Or x a es) = x"

fun actual_of :: "'v DecodeError \<Rightarrow> 'v" where
  "actual_of (Leaf x a) = a"
| "actual_of (Indexed x a es) = a"
| "actual_of (Labeled x a es) = a"
| "actual_of (And x a es) = a"
| "actual_of (Or x a es) = a"

text \<open>\<^verbatim>\<open>{ ...e, expected }\<close>: the same node with another label.\<close>

fun set_expected :: "string \<Rightarrow> 'v DecodeError \<Rightarrow> 'v DecodeError" where
  "set_expected x (Leaf _ a) = Leaf x a"
| "set_expected x (Indexed _ a es) = Indexed x a es"
| "set_expected x (Labeled _ a es) = Labeled x a es"
| "set_expected x (And _ a es) = And x a es"
| "set_expected x (Or _ a es) = Or x a es"

section \<open>Rendering an error as a tree of lines\<close>

text \<open>The rose tree of the functional library: a value and a forest.\<close>

datatype 'a Tree = Tree (tree_value: 'a) (forest: "'a Tree list")

definition make :: "'a \<Rightarrow> 'a Tree list \<Rightarrow> 'a Tree" where
  "make v f = Tree v f"

text \<open>\<^verbatim>\<open>{ ...t, value: s }\<close>.\<close>

definition with_value :: "'a \<Rightarrow> 'a Tree \<Rightarrow> 'a Tree" where
  "with_value s t = Tree s (forest t)"

text \<open>
  The line of one node. The parameter \<open>stringify\<close> stands for \<^verbatim>\<open>JSON.stringify\<close> on an
  arbitrary value, interpolated into the template literal; on a property key, which is a
  string, the source's \<^verbatim>\<open>JSON.stringify(k)\<close> is \<^const>\<open>stringify_string\<close>.
\<close>

definition node_line :: "(jsv \<Rightarrow> string) \<Rightarrow> jsv DecodeError \<Rightarrow> string" where
  "node_line stringify e =
     ''Cannot decode '' @ stringify (actual_of e) @ '', expected '' @ expected_of e"

fun toTree :: "(jsv \<Rightarrow> string) \<Rightarrow> jsv DecodeError \<Rightarrow> string Tree" where
  "toTree js (Leaf x a) = make (node_line js (Leaf x a)) []"
| "toTree js (Indexed x a errors) =
     make (node_line js (Indexed x a errors))
       (map (\<lambda>(i, e). with_value (''('' @ show_nat i @ '') '' @ tree_value (toTree js e))
                         (toTree js e)) errors)"
| "toTree js (Labeled x a errors) =
     make (node_line js (Labeled x a errors))
       (map (\<lambda>(k, e). with_value (''('' @ stringify_string k @ '') '' @ tree_value (toTree js e))
                         (toTree js e)) errors)"
| "toTree js (And x a errors) = make (node_line js (And x a errors)) (map (toTree js) errors)"
| "toTree js (Or x a errors) = make (node_line js (Or x a errors)) (map (toTree js) errors)"

section \<open>Decoders\<close>

text \<open>
  A decoder is its \<^verbatim>\<open>decode\<close> function. The result is \<open>Failure e\<close> (a left), \<open>Success a\<close>
  (a right), or \<open>Throws\<close> when the call raises an exception instead of returning; an
  exception raised by a member decoder leaves the enclosing loop at once.
  User-supplied predicates and mapping functions are total functions on values.
\<close>

type_synonym Result = "(jsv DecodeError + jsv) option"

type_synonym Decoder = "jsv \<Rightarrow> Result"

abbreviation Failure :: "'e \<Rightarrow> ('e + 'a) option" where
  "Failure e \<equiv> Some (Inl e)"

abbreviation Success :: "'a \<Rightarrow> ('e + 'a) option" where
  "Success a \<equiv> Some (Inr a)"

abbreviation Throws :: "('e + 'a) option" where
  "Throws \<equiv> None"

subsection \<open>Helpers imported by the source\<close>

text \<open>
  The guards of the module \<^verbatim>\<open>Guard\<close> are imported by the source and not part of it. The
  spec describes each as a type-membership test over the raw input, with no coercion; the
  record test accepts plain key-value objects, the array test arrays.
\<close>

text \<open>Modelled from the spec: \<^verbatim>\<open>G.string.is\<close>, the type test for strings.\<close>

fun G_string :: "jsv \<Rightarrow> bool" where
  "G_string (JStr s) = True"
| "G_string _ = False"

text \<open>Modelled from the spec: \<^verbatim>\<open>G.number.is\<close>, the type test for numbers.\<close>

fun G_number :: "jsv \<Rightarrow> bool" where
  "G_number (JNum n) = True"
| "G_number _ = False"

text \<open>Modelled from the spec: \<^verbatim>\<open>G.boolean.is\<close>, the type test for booleans.\<close>

fun G_boolean :: "jsv \<Rightarrow> bool" where
  "G_boolean (JBool b) = True"
| "G_boolean _ = False"

text \<open>Modelled from the spec: \<^verbatim>\<open>G.UnknownArray.is\<close>, the test for arrays.\<close>

fun G_UnknownArray :: "jsv \<Rightarrow> bool" where
  "G_UnknownArray (JArray us ps) = True"
| "G_UnknownArray _ = False"

text \<open>
  Modelled from the spec: \<^verbatim>\<open>G.UnknownRecord.is\<close>, the test for plain key-value objects:
  the ordinary objects, whatever their prototype.
\<close>

fun G_UnknownRecord :: "jsv \<Rightarrow> bool" where
  "G_UnknownRecord (JObject p ps) = True"
| "G_UnknownRecord _ = False"

text \<open>
  Modelled from the spec: \<^verbatim>\<open>G.literals(as).is\<close> holds iff the input is one of the
  allowed literal values, by value equality.
\<close>

definition G_literals :: "jsv list \<Rightarrow> jsv \<Rightarrow> bool" where
  "G_literals as u = (u \<in> set as)"

text \<open>
  Modelled from the spec: \<^verbatim>\<open>isNonEmpty\<close> of the module \<^verbatim>\<open>util\<close>, imported by the source and
  not part of it; the spec has a failure exactly when the accumulator is non-empty.
\<close>

definition isNonEmpty :: "'a list \<Rightarrow> bool" where
  "isNonEmpty as = (0 < length as)"

text \<open>
  Modelled from the spec: \<^verbatim>\<open>hasOwnProperty\<close> of the module \<^verbatim>\<open>util\<close>, imported by the source
  and not part of it; the spec has it test that the key is a declared key of the mapping.
\<close>

definition hasOwnProperty :: "(string \<times> 'a) list \<Rightarrow> string \<Rightarrow> bool" where
  "hasOwnProperty obj k = (k \<in> set (map fst obj))"


fun as_array :: "jsv \<Rightarrow> jsv list" where
  "as_array (JArray us ps) = us"
| "as_array _ = []"

text \<open>\<^verbatim>\<open>Object.prototype.toString.call(a) !== '[object Object]'\<close>.\<close>

fun not_plain_object :: "jsv \<Rightarrow> bool" where
  "not_plain_object (JObject p ps) = False"
| "not_plain_object _ = True"

subsection \<open>Constructors\<close>

text \<open>
  \<^verbatim>\<open>E.fromPredicate(refinement, onFalse)\<close> of the functional library returns the right of
  its argument when the predicate holds and the left of \<^verbatim>\<open>onFalse\<close> of it otherwise.
\<close>

definition fromRefinement :: "(jsv \<Rightarrow> bool) \<Rightarrow> string \<Rightarrow> Decoder" where
  "fromRefinement predicate expected u =
     (if predicate u then Success u else Failure (Leaf expected u))"

text \<open>
  \<^verbatim>\<open>showLiteral\<close> of the module \<^verbatim>\<open>util\<close> is not part of the source; it is a parameter.
\<close>

definition literals :: "(jsv \<Rightarrow> string) \<Rightarrow> jsv list \<Rightarrow> Decoder" where
  "literals showLiteral as =
     fromRefinement (G_literals as) (join '' | '' (map showLiteral as))"

subsection \<open>Primitives\<close>

definition never :: Decoder where
  "never u = Failure (Leaf ''never'' u)"

definition string :: Decoder where
  "string = fromRefinement G_string ''string''"

definition number :: Decoder where
  "number = fromRefinement G_number ''number''"

definition boolean :: Decoder where
  "boolean = fromRefinement G_boolean ''boolean''"

definition UnknownArray :: Decoder where
  "UnknownArray = fromRefinement G_UnknownArray ''Array<unknown>''"

definition UnknownRecord :: Decoder where
  "UnknownRecord = fromRefinement G_UnknownRecord ''Record<string, unknown>''"

subsection \<open>Combinators\<close>

definition mapLeft :: "Decoder \<Rightarrow> (jsv DecodeError \<Rightarrow> jsv DecodeError) \<Rightarrow> Decoder" where
  "mapLeft decoder f u =
     (case decoder u of
        Throws \<Rightarrow> Throws
      | Failure e \<Rightarrow> Failure (f e)
      | Success a \<Rightarrow> Success a)"

definition withExpected :: "Decoder \<Rightarrow> string \<Rightarrow> Decoder" where
  "withExpected decoder expected = mapLeft decoder (\<lambda>e. set_expected expected e)"

definition refinement :: "Decoder \<Rightarrow> (jsv \<Rightarrow> bool) \<Rightarrow> string \<Rightarrow> Decoder" where
  "refinement decoder predicate expected u =
     (case decoder u of
        Throws \<Rightarrow> Throws
      | Failure e \<Rightarrow> Failure e
      | Success a \<Rightarrow> (if predicate a then Success a else Failure (Leaf expected a)))"

text \<open>
  The predicate of \<^verbatim>\<open>Int\<close> has the static type \<^verbatim>\<open>number => boolean\<close>; on the values
  \<^verbatim>\<open>number\<close> lets through it is \<^verbatim>\<open>Number.isInteger\<close>.
\<close>

fun is_Int :: "jsv \<Rightarrow> bool" where
  "is_Int (JNum n) = isInteger n"
| "is_Int _ = False"

definition Int_decoder :: Decoder where
  "Int_decoder = refinement number is_Int ''Int''"

subsection \<open>Records: \<^verbatim>\<open>type\<close>, \<^verbatim>\<open>partial\<close>, \<^verbatim>\<open>record\<close>\<close>

text \<open>
  The field-decoder mapping is the list of its entries in the order \<^verbatim>\<open>for (k in decoders)\<close>
  visits them. Each loop reads the input record \<open>r\<close> with \<^const>\<open>get\<close> and carries the
  object under construction \<open>a\<close>, assigned with \<^const>\<open>set_property\<close>, and the failures
  \<open>es\<close>; \<^verbatim>\<open>es.push\<close> appends.
\<close>

fun type_loop ::
  "(string \<times> Decoder) list \<Rightarrow> jsv \<Rightarrow> object \<Rightarrow>
   (string \<times> jsv DecodeError) list \<Rightarrow> (object \<times> (string \<times> jsv DecodeError) list) option"
where
  "type_loop [] r a es = Some (a, es)"
| "type_loop ((k, d) # decoders) r a es =
     (case d (get r k) of
        Throws \<Rightarrow> None
      | Failure e \<Rightarrow> type_loop decoders r a (es @ [(k, e)])
      | Success v \<Rightarrow> type_loop decoders r (set_property a k v) es)"

definition type :: "(string \<times> Decoder) list \<Rightarrow> Decoder" where
  "type decoders u =
     (case UnknownRecord u of
        Throws \<Rightarrow> Throws
      | Failure e \<Rightarrow> Failure e
      | Success r \<Rightarrow>
          (case type_loop decoders r new_object [] of
             None \<Rightarrow> Throws
           | Some (a, es) \<Rightarrow>
               if isNonEmpty es then Failure (Labeled ''type'' u es)
               else Success (object_value a)))"

fun partial_loop ::
  "(string \<times> Decoder) list \<Rightarrow> jsv \<Rightarrow> object \<Rightarrow>
   (string \<times> jsv DecodeError) list \<Rightarrow> (object \<times> (string \<times> jsv DecodeError) list) option"
where
  "partial_loop [] r a es = Some (a, es)"
| "partial_loop ((k, d) # decoders) r a es =
     (if get r k \<noteq> JUndefined then
        (case d (get r k) of
           Throws \<Rightarrow> None
         | Failure e \<Rightarrow> partial_loop decoders r a (es @ [(k, e)])
         | Success v \<Rightarrow> partial_loop decoders r (set_property a k v) es)
      else partial_loop decoders r a es)"

definition partial :: "(string \<times> Decoder) list \<Rightarrow> Decoder" where
  "partial decoders u =
     (case UnknownRecord u of
        Throws \<Rightarrow> Throws
      | Failure e \<Rightarrow> Failure e
      | Success r \<Rightarrow>
          (case partial_loop decoders r new_object [] of
             None \<Rightarrow> Throws
           | Some (a, es) \<Rightarrow>
               if isNonEmpty es then Failure (Labeled ''partial'' u es)
               else Success (object_value a)))"

text \<open>
  \<^verbatim>\<open>for (const k in r)\<close> visits the keys of the input, \<^const>\<open>for_in_keys\<close>; the first
  argument is that list.
\<close>

fun record_loop ::
  "string list \<Rightarrow> Decoder \<Rightarrow> jsv \<Rightarrow> object \<Rightarrow>
   (string \<times> jsv DecodeError) list \<Rightarrow> (object \<times> (string \<times> jsv DecodeError) list) option"
where
  "record_loop [] decoder r a es = Some (a, es)"
| "record_loop (k # ks) decoder r a es =
     (case decoder (get r k) of
        Throws \<Rightarrow> None
      | Failure e \<Rightarrow> record_loop ks decoder r a (es @ [(k, e)])
      | Success v \<Rightarrow> record_loop ks decoder r (set_property a k v) es)"

definition record_decoder :: "Decoder \<Rightarrow> Decoder" where
  "record_decoder decoder u =
     (case UnknownRecord u of
        Throws \<Rightarrow> Throws
      | Failure e \<Rightarrow> Failure e
      | Success r \<Rightarrow>
          (case record_loop (for_in_keys r) decoder r new_object [] of
             None \<Rightarrow> Throws
           | Some (a, es) \<Rightarrow>
               if isNonEmpty es then Failure (Labeled ''record'' u es)
               else Success (object_value a)))"

subsection \<open>Sequences: \<^verbatim>\<open>array\<close>, \<^verbatim>\<open>tuple\<close>\<close>

text \<open>
  \<^verbatim>\<open>new Array(len)\<close> is a list of \<open>len\<close> slots; every slot is assigned before the array
  is returned, since it is returned only when no element failed.
\<close>

function array_loop ::
  "Decoder \<Rightarrow> jsv list \<Rightarrow> nat \<Rightarrow> nat \<Rightarrow> jsv list \<Rightarrow> (nat \<times> jsv DecodeError) list \<Rightarrow>
   (jsv list \<times> (nat \<times> jsv DecodeError) list) option"
where
  "array_loop decoder us len i a es =
     (if i < len then
        (case decoder (get_index us i) of
           Throws \<Rightarrow> None
         | Failure e \<Rightarrow> array_loop decoder us len (i + 1) a (es @ [(i, e)])
         | Success v \<Rightarrow> array_loop decoder us len (i + 1) (a[i := v]) es)
      else Some (a, es))"
  by pat_completeness auto

termination
  by (relation "measure (\<lambda>(decoder, us, len, i, a, es). len - i)") auto

declare array_loop.simps [simp del]

definition array :: "Decoder \<Rightarrow> Decoder" where
  "array decoder u =
     (case UnknownArray u of
        Throws \<Rightarrow> Throws
      | Failure e \<Rightarrow> Failure e
      | Success r \<Rightarrow>
          (let us = as_array r; len = length us in
           case array_loop decoder us len 0 (replicate len JUndefined) [] of
             None \<Rightarrow> Throws
           | Some (a, es) \<Rightarrow>
               if isNonEmpty es then Failure (Indexed ''array'' u es) else Success (JArr a)))"

function tuple_loop ::
  "Decoder list \<Rightarrow> jsv list \<Rightarrow> nat \<Rightarrow> nat \<Rightarrow> jsv list \<Rightarrow> (nat \<times> jsv DecodeError) list \<Rightarrow>
   (jsv list \<times> (nat \<times> jsv DecodeError) list) option"
where
  "tuple_loop decoders us len i a es =
     (if i < len then
        (case (decoders ! i) (get_index us i) of
           Throws \<Rightarrow> None
         | Failure e \<Rightarrow> tuple_loop decoders us len (i + 1) a (es @ [(i, e)])
         | Success v \<Rightarrow> tuple_loop decoders us len (i + 1) (a[i := v]) es)
      else Some (a, es))"
  by pat_completeness auto

termination
  by (relation "measure (\<lambda>(decoders, us, len, i, a, es). len - i)") auto

declare tuple_loop.simps [simp del]

definition tuple :: "Decoder list \<Rightarrow> Decoder" where
  "tuple decoders u =
     (case UnknownArray u of
        Throws \<Rightarrow> Throws
      | Failure e \<Rightarrow> Failure e
      | Success r \<Rightarrow>
          (let us = as_array r; len = length decoders in
           case tuple_loop decoders us len 0 (replicate len JUndefined) [] of
             None \<Rightarrow> Throws
           | Some (a, es) \<Rightarrow>
               if isNonEmpty es then Failure (Indexed ''tuple'' u es) else Success (JArr a)))"

subsection \<open>\<^verbatim>\<open>intersection\<close>\<close>

text \<open>
  The array \<^verbatim>\<open>as\<close> starts empty and is written at index \<open>i\<close> only when member \<open>i\<close>
  succeeds, so it has a hole wherever a member failed before a later one succeeded.
  A slot is \<open>Some a\<close>, a hole is \<open>None\<close>.
\<close>

definition set_sparse :: "'a option list \<Rightarrow> nat \<Rightarrow> 'a \<Rightarrow> 'a option list" where
  "set_sparse as i v =
     (if i < length as then as[i := Some v]
      else as @ replicate (i - length as) None @ [Some v])"

text \<open>\<^verbatim>\<open>as.some(p)\<close> skips holes.\<close>

definition some_not_plain :: "jsv option list \<Rightarrow> bool" where
  "some_not_plain as =
     list_ex (\<lambda>x. case x of None \<Rightarrow> False | Some a \<Rightarrow> not_plain_object a) as"

text \<open>\<^verbatim>\<open>as[as.length - 1]\<close>; on the empty array this reads index \<open>-1\<close>, which is \<^verbatim>\<open>undefined\<close>.\<close>

definition last_slot :: "jsv option list \<Rightarrow> jsv" where
  "last_slot as =
     (if as = [] then JUndefined
      else case last as of None \<Rightarrow> JUndefined | Some a \<Rightarrow> a)"

text \<open>
  \<^verbatim>\<open>Object.assign({}, ...as)\<close>: the sources are visited in order; for each own key of a
  source, in the source's order, the source's value is assigned to that key of the
  target, as \<^verbatim>\<open>target[k] = source[k]\<close> does. A hole is spread as \<^verbatim>\<open>undefined\<close>, which
  is skipped. The call is reached only when every slot of \<^verbatim>\<open>as\<close> is a plain object.
\<close>

definition copy_props :: "(string \<times> jsv) list \<Rightarrow> object \<Rightarrow> object" where
  "copy_props src target = fold (\<lambda>k t. set_property t k (get_prop src k)) (map fst src) target"

definition Object_assign :: "object \<Rightarrow> jsv option list \<Rightarrow> object" where
  "Object_assign target as =
     fold (\<lambda>src t. case src of Some (JObject p ps) \<Rightarrow> copy_props ps t | _ \<Rightarrow> t) as target"

function intersection_loop ::
  "Decoder list \<Rightarrow> jsv \<Rightarrow> nat \<Rightarrow> nat \<Rightarrow> jsv option list \<Rightarrow> jsv DecodeError list \<Rightarrow>
   (jsv option list \<times> jsv DecodeError list) option"
where
  "intersection_loop decoders u len i as es =
     (if i < len then
        (case (decoders ! i) u of
           Throws \<Rightarrow> None
         | Failure e \<Rightarrow> intersection_loop decoders u len (i + 1) as (es @ [e])
         | Success v \<Rightarrow> intersection_loop decoders u len (i + 1) (set_sparse as i v) es)
      else Some (as, es))"
  by pat_completeness auto

termination
  by (relation "measure (\<lambda>(decoders, u, len, i, as, es). len - i)") auto

declare intersection_loop.simps [simp del]

definition intersection :: "Decoder list \<Rightarrow> Decoder" where
  "intersection decoders u =
     (let len = length decoders in
      if len = 0 then Success u
      else
        case intersection_loop decoders u len 0 [] [] of
          None \<Rightarrow> Throws
        | Some (as, es) \<Rightarrow>
            (let a = (if some_not_plain as then last_slot as
                      else object_value (Object_assign new_object as))
             in if isNonEmpty es then Failure (And ''intersection'' u es) else Success a))"

subsection \<open>\<^verbatim>\<open>lazy\<close>\<close>

text \<open>
  The memo cell holds the decoder the supplier returns on its first call; with a supplier
  that is a pure function, every call of \<^verbatim>\<open>getMemoized()\<close> yields that same decoder.
\<close>

definition lazy :: "(unit \<Rightarrow> Decoder) \<Rightarrow> Decoder" where
  "lazy f u = f () u"

subsection \<open>\<^verbatim>\<open>sum\<close>\<close>

text \<open>
  \<^verbatim>\<open>er.right[tag] = v\<close> assigns to a property of the member's result; \<open>v\<close> is a string
  there. The result is \<open>None\<close> when the assignment raises.

  On an array, an array index as key sets that element, extending the array; the key
  \<^verbatim>\<open>length\<close> sets the length, or raises a RangeError when the string is not a length;
  \<^verbatim>\<open>__proto__\<close> reaches the setter of \<^verbatim>\<open>Object.prototype\<close>, which ignores a string; any
  other key sets an own property. The arguments are the value a hole stands for, the
  string as a value, the elements and other properties of the array, the key and the
  string.
\<close>

definition array_assign ::
  "'v \<Rightarrow> 'v \<Rightarrow> 'v list \<Rightarrow> (string \<times> 'v) list \<Rightarrow> string \<Rightarrow> string \<Rightarrow>
   ('v list \<times> (string \<times> 'v) list) option"
where
  "array_assign hole v us ps k s =
     (case array_index k of
        Some i \<Rightarrow> Some (store_index hole us i v, ps)
      | None \<Rightarrow>
          if k = ''length'' then
            (case string_to_length s of
               None \<Rightarrow> None
             | Some n \<Rightarrow> Some (resize hole n us, ps))
          else if k = ''__proto__'' \<and> map_of ps k = None then Some (us, ps)
          else Some (us, define_own k v ps))"

text \<open>
  On an ordinary object the assignment is \<^const>\<open>set_property\<close>. On \<^verbatim>\<open>undefined\<close> and
  \<^verbatim>\<open>null\<close>, and (module code being strict) on a boolean, number or string, it raises a
  TypeError.
\<close>

fun assign_prop :: "jsv \<Rightarrow> string \<Rightarrow> string \<Rightarrow> jsv option" where
  "assign_prop (JObject p ps) k s = Some (object_value (set_property (p, ps) k (JStr s)))"
| "assign_prop (JArray us ps) k s =
     map_option (\<lambda>(us', ps'). JArray us' ps') (array_assign JUndefined (JStr s) us ps k s)"
| "assign_prop _ k s = None"

text \<open>
  \<^verbatim>\<open>def[v].decode(u)\<close> is reached only when \<^verbatim>\<open>v\<close> is a string and an own key of
  \<^verbatim>\<open>def\<close>; the lookup of a missing key would give \<^verbatim>\<open>undefined\<close>, whose \<^verbatim>\<open>decode\<close>
  cannot be called.
\<close>

definition sum_decoder :: "string \<Rightarrow> (string \<times> Decoder) list \<Rightarrow> Decoder" where
  "sum_decoder tag def =
     (let keys = map fst def in
      if length keys = 0 then never
      else
        let expected = join '' | '' (map stringify_string keys) in
        (\<lambda>u.
          case UnknownRecord u of
            Throws \<Rightarrow> Throws
          | Failure e \<Rightarrow> Failure e
          | Success r \<Rightarrow>
              (let v = get r tag in
               case v of
                 JStr s \<Rightarrow>
                   if hasOwnProperty def s then
                     (case map_of def s of
                        None \<Rightarrow> Throws
                      | Some d \<Rightarrow>
                          (case d u of
                             Throws \<Rightarrow> Throws
                           | Failure er \<Rightarrow> Failure er
                           | Success right \<Rightarrow>
                               (case assign_prop right tag s of
                                  None \<Rightarrow> Throws
                                | Some right' \<Rightarrow> Success right')))
                   else Failure (Labeled ''sum'' u [(tag, Leaf expected v)])
               | _ \<Rightarrow> Failure (Labeled ''sum'' u [(tag, Leaf expected v)]))))"

subsection \<open>\<^verbatim>\<open>union\<close>\<close>

function union_loop ::
  "Decoder list \<Rightarrow> jsv \<Rightarrow> nat \<Rightarrow> nat \<Rightarrow> jsv DecodeError list \<Rightarrow> Result"
where
  "union_loop decoders u len i es =
     (if i < len then
        (case (decoders ! i) u of
           Throws \<Rightarrow> Throws
         | Success a \<Rightarrow> Success a
         | Failure e \<Rightarrow> union_loop decoders u len (i + 1) (es @ [e]))
      else Failure (Or ''union'' u es))"
  by pat_completeness auto

termination
  by (relation "measure (\<lambda>(decoders, u, len, i, es). len - i)") auto

declare union_loop.simps [simp del]

definition union :: "Decoder list \<Rightarrow> Decoder" where
  "union decoders =
     (let len = length decoders in
      if len = 0 then never
      else
        (\<lambda>u.
          case (decoders ! 0) u of
            Throws \<Rightarrow> Throws
          | Success a \<Rightarrow> Success a
          | Failure e \<Rightarrow> union_loop decoders u len 1 [e]))"

definition literalsOr :: "(jsv \<Rightarrow> string) \<Rightarrow> jsv list \<Rightarrow> Decoder \<Rightarrow> Decoder" where
  "literalsOr showLiteral as decoder = union [literals showLiteral as, decoder]"

subsection \<open>The instance: \<^verbatim>\<open>map\<close>, \<^verbatim>\<open>of\<close>, \<^verbatim>\<open>alt\<close>, \<^verbatim>\<open>zero\<close>\<close>

text \<open>
  The instance delegates to the \<^verbatim>\<open>Either\<close> of the functional library: \<^verbatim>\<open>map\<close>
  applies the function to a right and keeps a left; \<^verbatim>\<open>alt(fx, fy)\<close> is \<^verbatim>\<open>fx\<close> when it
  is a right and \<^verbatim>\<open>fy()\<close> otherwise. The second alternative is a thunk.
  \<^verbatim>\<open>ap\<close> needs a decoder whose value is a function and is not modelled.
\<close>

definition map_decoder :: "Decoder \<Rightarrow> (jsv \<Rightarrow> jsv) \<Rightarrow> Decoder" where
  "map_decoder fa f u =
     (case fa u of
        Throws \<Rightarrow> Throws
      | Failure e \<Rightarrow> Failure e
      | Success a \<Rightarrow> Success (f a))"

definition of_decoder :: "jsv \<Rightarrow> Decoder" where
  "of_decoder a u = Success a"

definition alt :: "Decoder \<Rightarrow> (unit \<Rightarrow> Decoder) \<Rightarrow> Decoder" where
  "alt fx fy u =
     (case fx u of
        Throws \<Rightarrow> Throws
      | Failure e \<Rightarrow> fy () u
      | Success a \<Rightarrow> Success a)"

definition zero_decoder :: "unit \<Rightarrow> Decoder" where
  "zero_decoder _ = never"

section \<open>Decoding over a store\<close>

text \<open>
  The definitions above take the input as an immutable value. What \<^verbatim>\<open>decode\<close> does to the
  caller's objects needs the objects: here a value is a primitive or a reference, the
  store is the list of the objects allocated so far (an address is an index), and a
  decoder takes the store and returns it with its result. An object of the store is an
  ordinary object or an array, as at the value level; the prototype of an ordinary object
  is \<^verbatim>\<open>Object.prototype\<close>, or a value: \<^verbatim>\<open>null\<close> or a reference. The tagged sum is given
  again in this form, statement by statement, with the constructors its members are built
  from below.
\<close>

type_synonym addr = nat

datatype hval = HUndefined | HNull | HBool bool | HNum jnumber | HStr string | HRef addr

datatype hobj =
    HObject "hval prototype" "(string \<times> hval) list"
  | HArray "hval list" "(string \<times> hval) list"

type_synonym heap = "hobj list"

type_synonym HResult = "(hval DecodeError + hval) option"

type_synonym HDecoder = "hval \<Rightarrow> heap \<Rightarrow> HResult \<times> heap"

definition lookup :: "heap \<Rightarrow> addr \<Rightarrow> hobj option" where
  "lookup h a = (if a < length h then Some (h ! a) else None)"

subsection \<open>Reading a property\<close>

text \<open>
  The data property \<open>k\<close> names on the object a value refers to, or along its prototype
  chain (see \<^const>\<open>lookup_chain\<close>). The host refuses to make a prototype chain cyclic, so
  a chain has at most as many objects as the store has: the first argument bounds the
  objects visited, and \<open>h_get\<close> gives it the size of the store.
\<close>

fun h_lookup_chain :: "nat \<Rightarrow> heap \<Rightarrow> hval \<Rightarrow> string \<Rightarrow> hval option" where
  "h_lookup_chain (Suc n) h (HRef a) k =
     (case lookup h a of
        Some (HObject p ps) \<Rightarrow>
          (case map_of ps k of
             Some v \<Rightarrow> Some v
           | None \<Rightarrow> (case p of ObjectPrototype \<Rightarrow> None | Proto q \<Rightarrow> h_lookup_chain n h q k))
      | Some (HArray us ps) \<Rightarrow>
          (case array_index k of
             Some i \<Rightarrow> if i < length us then Some (us ! i) else None
           | None \<Rightarrow>
               if k = ''length'' then Some (HNum (Finite (of_nat (length us)))) else map_of ps k)
      | None \<Rightarrow> None)"
| "h_lookup_chain n h r k = None"

fun h_ends_at_builtin :: "nat \<Rightarrow> heap \<Rightarrow> hval \<Rightarrow> bool" where
  "h_ends_at_builtin (Suc n) h (HRef a) =
     (case lookup h a of
        Some (HObject p ps) \<Rightarrow>
          (case p of ObjectPrototype \<Rightarrow> True | Proto q \<Rightarrow> h_ends_at_builtin n h q)
      | Some (HArray us ps) \<Rightarrow> True
      | None \<Rightarrow> False)"
| "h_ends_at_builtin n h r = False"

definition h_inherits_accessor :: "heap \<Rightarrow> hval \<Rightarrow> bool" where
  "h_inherits_accessor h r =
     (h_lookup_chain (length h) h r ''__proto__'' = None \<and> h_ends_at_builtin (length h) h r)"

definition h_prototype_value :: "heap \<Rightarrow> hval \<Rightarrow> hval" where
  "h_prototype_value h r =
     (case r of
        HRef a \<Rightarrow> (case lookup h a of Some (HObject (Proto q) ps) \<Rightarrow> q | _ \<Rightarrow> HUndefined)
      | _ \<Rightarrow> HUndefined)"

text \<open>\<^verbatim>\<open>r[k]\<close>, as \<^const>\<open>get\<close> at the value level.\<close>

definition h_get :: "heap \<Rightarrow> hval \<Rightarrow> string \<Rightarrow> hval" where
  "h_get h r k =
     (case h_lookup_chain (length h) h r k of
        Some v \<Rightarrow> v
      | None \<Rightarrow>
          if k = ''__proto__'' \<and> h_ends_at_builtin (length h) h r then h_prototype_value h r
          else HUndefined)"

subsection \<open>Constructors and primitives\<close>

text \<open>
  Modelled from the spec: \<^verbatim>\<open>G.UnknownRecord.is\<close>, as at the value level. The test looks at
  the object a reference points to.
\<close>

definition h_G_UnknownRecord :: "heap \<Rightarrow> hval \<Rightarrow> bool" where
  "h_G_UnknownRecord h u =
     (case u of
        HRef a \<Rightarrow> (case lookup h a of Some (HObject p ps) \<Rightarrow> True | _ \<Rightarrow> False)
      | _ \<Rightarrow> False)"

text \<open>A predicate reads the store and does not change it.\<close>

definition h_fromRefinement :: "(heap \<Rightarrow> hval \<Rightarrow> bool) \<Rightarrow> string \<Rightarrow> HDecoder" where
  "h_fromRefinement predicate expected u h =
     (if predicate h u then Success u else Failure (Leaf expected u), h)"

definition h_never :: HDecoder where
  "h_never u h = (Failure (Leaf ''never'' u), h)"

definition h_UnknownRecord :: HDecoder where
  "h_UnknownRecord = h_fromRefinement h_G_UnknownRecord ''Record<string, unknown>''"

subsection \<open>\<^verbatim>\<open>sum\<close>\<close>

text \<open>
  \<^verbatim>\<open>er.right[tag] = v\<close> writes into the object the member returned, in place; \<open>v\<close> is a
  string. On an ordinary object the assignment sets the own property, except that
  \<^verbatim>\<open>__proto__\<close>, when it resolves to the accessor of \<^verbatim>\<open>Object.prototype\<close>, reaches the
  setter, which ignores a string. On an array it is \<^const>\<open>array_assign\<close>. On a value
  that is not a reference it raises a TypeError (see \<^const>\<open>assign_prop\<close>); a reference
  always points to an object of the store.
\<close>

definition h_assign_prop :: "hval \<Rightarrow> string \<Rightarrow> string \<Rightarrow> heap \<Rightarrow> heap option" where
  "h_assign_prop right k s h =
     (case right of
        HRef a \<Rightarrow>
          (case lookup h a of
             Some (HObject p ps) \<Rightarrow>
               if k = ''__proto__'' \<and> h_inherits_accessor h right then Some h
               else Some (h[a := HObject p (define_own k (HStr s) ps)])
           | Some (HArray us ps) \<Rightarrow>
               map_option (\<lambda>(us', ps'). h[a := HArray us' ps'])
                 (array_assign HUndefined (HStr s) us ps k s)
           | None \<Rightarrow> None)
      | _ \<Rightarrow> None)"

definition h_sum :: "string \<Rightarrow> (string \<times> HDecoder) list \<Rightarrow> HDecoder" where
  "h_sum tag def =
     (let keys = map fst def in
      if length keys = 0 then h_never
      else
        let expected = join '' | '' (map stringify_string keys) in
        (\<lambda>u h.
          case h_UnknownRecord u h of
            (Throws, h1) \<Rightarrow> (Throws, h1)
          | (Failure e, h1) \<Rightarrow> (Failure e, h1)
          | (Success r, h1) \<Rightarrow>
              (let v = h_get h1 r tag in
               case v of
                 HStr s \<Rightarrow>
                   if hasOwnProperty def s then
                     (case map_of def s of
                        None \<Rightarrow> (Throws, h1)
                      | Some d \<Rightarrow>
                          (case d u h1 of
                             (Throws, h2) \<Rightarrow> (Throws, h2)
                           | (Failure er, h2) \<Rightarrow> (Failure er, h2)
                           | (Success right, h2) \<Rightarrow>
                               (case h_assign_prop right tag s h2 of
                                  None \<Rightarrow> (Throws, h2)
                                | Some h3 \<Rightarrow> (Success right, h3))))
                   else (Failure (Labeled ''sum'' u [(tag, Leaf expected v)]), h1)
               | _ \<Rightarrow> (Failure (Labeled ''sum'' u [(tag, Leaf expected v)]), h1))))"

subsection \<open>\<^verbatim>\<open>map\<close>\<close>

text \<open>The function given to \<^verbatim>\<open>map\<close> reads the store and does not change it.\<close>

definition h_map :: "HDecoder \<Rightarrow> (heap \<Rightarrow> hval \<Rightarrow> hval) \<Rightarrow> HDecoder" where
  "h_map fa f u h =
     (case fa u h of
        (Throws, h') \<Rightarrow> (Throws, h')
      | (Failure e, h') \<Rightarrow> (Failure e, h')
      | (Success a, h') \<Rightarrow> (Success (f h' a), h'))"

text \<open>\<^verbatim>\<open>r => r[k]\<close>, a function for \<^verbatim>\<open>map\<close> that reads a property of its argument.\<close>

definition project_prop :: "string \<Rightarrow> heap \<Rightarrow> hval \<Rightarrow> hval" where
  "project_prop k h r = h_get h r k"

section \<open>Vocabulary of the properties\<close>

subsection \<open>Member results\<close>

text \<open>A result that is a \<open>Failure\<close>, and the errors of the failures in a list of results.\<close>

fun is_Failure :: "Result \<Rightarrow> bool" where
  "is_Failure (Some (Inl e)) = True"
| "is_Failure _ = False"

definition failures :: "('i \<times> Result) list \<Rightarrow> ('i \<times> jsv DecodeError) list" where
  "failures rs = concat (map (\<lambda>(i, r). case r of Failure e \<Rightarrow> [(i, e)] | _ \<Rightarrow> []) rs)"

text \<open>
  The results of the members a combinator runs on an input, paired with the key or index
  of each, in the order the loop visits them. \<^verbatim>\<open>partial\<close> runs the members whose input value
  is not \<^verbatim>\<open>undefined\<close>.
\<close>

definition type_results :: "(string \<times> Decoder) list \<Rightarrow> (string \<times> jsv) list \<Rightarrow> (string \<times> Result) list" where
  "type_results decoders r = map (\<lambda>(k, d). (k, d (get_prop r k))) decoders"





subsection \<open>Exhaustive accumulation of member failures\<close>




subsection \<open>The rendered report\<close>

text \<open>
  The lines of a tree in depth-first order, each with its depth: the level at which the
  line is indented when the tree is drawn.
\<close>

fun tree_lines :: "nat \<Rightarrow> 'a Tree \<Rightarrow> (nat \<times> 'a) list" where
  "tree_lines d (Tree v f) = (d, v) # concat (map (tree_lines (d + 1)) f)"

text \<open>
  The report as the spec words it: one line per error node, reading
  \<^verbatim>\<open>Cannot decode <JSON of actual>, expected <expected>\<close>; the line of a child of an
  \<open>Indexed\<close> node is prefixed by its index in parentheses, that of a child of a \<open>Labeled\<close>
  node by its quoted key in parentheses, the children of \<open>And\<close> and \<open>Or\<close> nodes carry no
  prefix; every child is one level below its parent.
\<close>

fun spec_report :: "(jsv \<Rightarrow> string) \<Rightarrow> nat \<Rightarrow> string \<Rightarrow> jsv DecodeError \<Rightarrow> (nat \<times> string) list" where
  "spec_report js d pre (Leaf x a) =
     [(d, pre @ ''Cannot decode '' @ js a @ '', expected '' @ x)]"
| "spec_report js d pre (Indexed x a es) =
     (d, pre @ ''Cannot decode '' @ js a @ '', expected '' @ x) #
     concat (map (\<lambda>(i, e). spec_report js (d + 1) (''('' @ show_nat i @ '') '') e) es)"
| "spec_report js d pre (Labeled x a es) =
     (d, pre @ ''Cannot decode '' @ js a @ '', expected '' @ x) #
     concat (map (\<lambda>(k, e). spec_report js (d + 1) (''('' @ stringify_string k @ '') '') e) es)"
| "spec_report js d pre (And x a es) =
     (d, pre @ ''Cannot decode '' @ js a @ '', expected '' @ x) #
     concat (map (spec_report js (d + 1) []) es)"
| "spec_report js d pre (Or x a es) =
     (d, pre @ ''Cannot decode '' @ js a @ '', expected '' @ x) #
     concat (map (spec_report js (d + 1) []) es)"

subsection \<open>Alternatives\<close>

text \<open>An error is surfaced by a failure when it is the failure's error or occurs in its tree.\<close>

fun occurs_in :: "jsv DecodeError \<Rightarrow> jsv DecodeError \<Rightarrow> bool" where
  "occurs_in t (Leaf x a) = (t = Leaf x a)"
| "occurs_in t (Indexed x a es) = (t = Indexed x a es \<or> list_ex (\<lambda>p. occurs_in t (snd p)) es)"
| "occurs_in t (Labeled x a es) = (t = Labeled x a es \<or> list_ex (\<lambda>p. occurs_in t (snd p)) es)"
| "occurs_in t (And x a es) = (t = And x a es \<or> list_ex (occurs_in t) es)"
| "occurs_in t (Or x a es) = (t = Or x a es \<or> list_ex (occurs_in t) es)"

subsection \<open>Composite errors are never empty\<close>

text \<open>The invariant of the error model: no composite node has an empty list of errors.\<close>

fun nonempty_errors :: "jsv DecodeError \<Rightarrow> bool" where
  "nonempty_errors (Leaf x a) = True"
| "nonempty_errors (Indexed x a es) = (es \<noteq> [] \<and> list_all (\<lambda>p. nonempty_errors (snd p)) es)"
| "nonempty_errors (Labeled x a es) = (es \<noteq> [] \<and> list_all (\<lambda>p. nonempty_errors (snd p)) es)"
| "nonempty_errors (And x a es) = (es \<noteq> [] \<and> list_all nonempty_errors es)"
| "nonempty_errors (Or x a es) = (es \<noteq> [] \<and> list_all nonempty_errors es)"

text \<open>A decoder is sound when every error it fails with satisfies the invariant.\<close>

definition sound :: "Decoder \<Rightarrow> bool" where
  "sound d = (\<forall>u e. d u = Failure e \<longrightarrow> nonempty_errors e)"

text \<open>
  The decoders built from the constructors of the source. The function given to
  \<^verbatim>\<open>mapLeft\<close> is the caller's; it is required to keep the invariant. A \<^verbatim>\<open>lazy\<close> decoder is
  built from the decoder its supplier returns.
\<close>

inductive engine :: "Decoder \<Rightarrow> bool" where
  e_fromRefinement: "engine (fromRefinement predicate expected)"
| e_literals: "engine (literals showLiteral as)"
| e_never: "engine never"
| e_string: "engine string"
| e_number: "engine number"
| e_boolean: "engine boolean"
| e_UnknownArray: "engine UnknownArray"
| e_UnknownRecord: "engine UnknownRecord"
| e_Int: "engine Int_decoder"
| e_mapLeft:
    "engine decoder \<Longrightarrow> (\<And>e. nonempty_errors e \<Longrightarrow> nonempty_errors (f e)) \<Longrightarrow>
     engine (mapLeft decoder f)"
| e_withExpected: "engine decoder \<Longrightarrow> engine (withExpected decoder expected)"
| e_refinement: "engine decoder \<Longrightarrow> engine (refinement decoder predicate expected)"
| e_type: "(\<And>k d. (k, d) \<in> set decoders \<Longrightarrow> engine d) \<Longrightarrow> engine (type decoders)"
| e_partial: "(\<And>k d. (k, d) \<in> set decoders \<Longrightarrow> engine d) \<Longrightarrow> engine (partial decoders)"
| e_record: "engine decoder \<Longrightarrow> engine (record_decoder decoder)"
| e_array: "engine decoder \<Longrightarrow> engine (array decoder)"
| e_tuple: "(\<And>d. d \<in> set decoders \<Longrightarrow> engine d) \<Longrightarrow> engine (tuple decoders)"
| e_intersection: "(\<And>d. d \<in> set decoders \<Longrightarrow> engine d) \<Longrightarrow> engine (intersection decoders)"
| e_lazy: "engine (f ()) \<Longrightarrow> engine (lazy f)"
| e_sum: "(\<And>k d. (k, d) \<in> set def \<Longrightarrow> engine d) \<Longrightarrow> engine (sum_decoder tag def)"
| e_union: "(\<And>d. d \<in> set decoders \<Longrightarrow> engine d) \<Longrightarrow> engine (union decoders)"
| e_literalsOr: "engine decoder \<Longrightarrow> engine (literalsOr showLiteral as decoder)"
| e_map: "engine fa \<Longrightarrow> engine (map_decoder fa g)"
| e_of: "engine (of_decoder a)"
| e_alt: "engine fx \<Longrightarrow> engine (fy ()) \<Longrightarrow> engine (alt fx fy)"
| e_zero: "engine (zero_decoder ())"

section \<open>Properties of objects\<close>

lemma insert_index_map_of:
  "k \<notin> fst ` set ps \<Longrightarrow> map_of (insert_index i k v ps) = (map_of ps)(k \<mapsto> v)"
proof (induction ps)
  case Nil
  show ?case by simp
next
  case (Cons p ps)
  obtain k' v' where p: "p = (k', v')" by (cases p)
  from Cons.prems p have ne: "k \<noteq> k'" and rest: "k \<notin> fst ` set ps" by auto
  show ?case
  proof (cases "array_index k'")
    case None
    with p show ?thesis by (simp add: fun_eq_iff)
  next
    case (Some j)
    show ?thesis
    proof (cases "j < i")
      case True
      with Some p Cons.IH [OF rest] ne show ?thesis by (auto simp: fun_eq_iff)
    next
      case False
      with Some p show ?thesis by (simp add: fun_eq_iff)
    qed
  qed
qed



lemma define_own_map_of: "map_of (define_own k v ps) = (map_of ps)(k \<mapsto> v)"
  by (simp add: define_own_def update_conv' insert_index_map_of split: option.splits)


lemma array_index_not_digit:
  "digit_value 10 c = None \<Longrightarrow> array_index (c # cs) = None"
  by (simp add: array_index_def digits_nat_def)

lemma get_JObj [simp]: "get (JObj ps) k = get_prop ps k"
  by (simp add: get_def get_prop_def split: option.splits)

lemma get_own: "map_of ps k = Some v \<Longrightarrow> get (JObject p ps) k = v"
  by (cases p) (simp_all add: get_def)

lemma set_property_plain:
  "k \<noteq> ''__proto__'' \<Longrightarrow> set_property a k v = (fst a, define_own k v (snd a))"
  by (simp add: set_property_def)



section \<open>Member results\<close>

lemma failures_Nil [simp]: "failures [] = []"
  by (simp add: failures_def)


lemma failures_append: "failures (xs @ ys) = failures xs @ failures ys"
  by (simp add: failures_def)




lemma type_loop_throws:
  "\<exists>x \<in> set (type_results decoders r). snd x = Throws \<Longrightarrow>
   type_loop decoders (JObj r) a es = None"
proof (induction decoders arbitrary: a es)
  case Nil
  then show ?case by (simp add: type_results_def)
next
  case (Cons x decoders)
  obtain k d where x: "x = (k, d)" by (cases x)
  show ?case
  proof (cases "d (get_prop r k)")
    case None
    with x show ?thesis by simp
  next
    case (Some s)
    with Cons.prems x have "\<exists>x \<in> set (type_results decoders r). snd x = Throws"
      by (simp add: type_results_def)
    from Cons.IH [OF this] x Some show ?thesis by (cases s) simp_all
  qed
qed





section \<open>Exhaustive accumulation of member failures\<close>











section \<open>Union\<close>

lemma union_loop_all_fail:
  assumes "length es = len" and "\<forall>j<len. (decoders ! j) u = Failure (es ! j)" and "i \<le> len"
  shows "union_loop decoders u len i (take i es) = Failure (Or ''union'' u es)"
  using assms(3)
proof (induction "len - i" arbitrary: i)
  case 0
  with assms(1) show ?case by (subst union_loop.simps) simp
next
  case (Suc n)
  then have lt: "i < len" and n: "n = len - (i + 1)" and le: "i + 1 \<le> len" by simp_all
  from assms(2) lt have f: "(decoders ! i) u = Failure (es ! i)" by simp
  from lt assms(1) have t: "take i es @ [es ! i] = take (i + 1) es"
    by (simp add: take_Suc_conv_app_nth)
  from Suc.hyps(1) [OF n le] f lt t show ?case
    by (simp add: union_loop.simps [of decoders u len i])
qed

lemma union_loop_first_success:
  assumes "m < len" and "(decoders ! m) u = Success a"
    and "\<forall>j. i \<le> j \<and> j < m \<longrightarrow> is_Failure ((decoders ! j) u)" and "i \<le> m"
  shows "union_loop decoders u len i acc = Success a"
  using assms(3,4)
proof (induction "m - i" arbitrary: i acc)
  case 0
  then have "i = m" by simp
  with assms(1,2) show ?case by (subst union_loop.simps) simp
next
  case (Suc n)
  then have lt: "i < m" and n: "n = m - (i + 1)" and le: "i + 1 \<le> m" by simp_all
  from Suc.prems lt have "is_Failure ((decoders ! i) u)" by simp
  then obtain e where f: "(decoders ! i) u = Failure e"
    by (cases "(decoders ! i) u" rule: is_Failure.cases) simp_all
  from Suc.prems have rest: "\<forall>j. i + 1 \<le> j \<and> j < m \<longrightarrow> is_Failure ((decoders ! j) u)" by simp
  from Suc.hyps(1) [OF n rest le, of "acc @ [e]"] f lt assms(1) show ?case
    by (simp add: union_loop.simps [of decoders u len i])
qed

lemma union_first_success:
  assumes "\<forall>p \<in> set before. is_Failure (p u)" and "d u = Success a"
  shows "union (before @ d # after) u = Success a"
proof (cases before)
  case Nil
  with assms(2) show ?thesis by (simp add: union_def)
next
  case (Cons p ps)
  let ?ds = "before @ d # after"
  from Cons assms(1) have "is_Failure (p u)" by simp
  then obtain e where e: "p u = Failure e"
    by (cases "p u" rule: is_Failure.cases) simp_all
  have m: "length before < length ?ds" by simp
  have dm: "(?ds ! length before) u = Success a" using assms(2) by simp
  have fails: "\<forall>j. 1 \<le> j \<and> j < length before \<longrightarrow> is_Failure ((?ds ! j) u)"
    using assms(1) by (simp add: nth_append)
  have one: "1 \<le> length before" using Cons by simp
  from union_loop_first_success [OF m dm fails one, of "[e]"] Cons e show ?thesis
    by (simp add: union_def)
qed

lemma union_all_fail:
  assumes "decoders \<noteq> []" and "map (\<lambda>d. d u) decoders = map Failure es"
  shows "union decoders u = Failure (Or ''union'' u es)"
proof -
  have len: "length es = length decoders"
    using map_eq_imp_length_eq [OF assms(2)] by simp
  have nth: "\<forall>j<length decoders. (decoders ! j) u = Failure (es ! j)"
  proof (intro allI impI)
    fix j assume j: "j < length decoders"
    from arg_cong [OF assms(2), of "\<lambda>xs. xs ! j"] j len show "(decoders ! j) u = Failure (es ! j)"
      by simp
  qed
  from assms(1) len have pos: "0 < length decoders" and es: "es \<noteq> []" by auto
  from nth pos have h: "(decoders ! 0) u = Failure (es ! 0)" by simp
  from es have t: "take 1 es = [es ! 0]" by (cases es) simp_all
  from union_loop_all_fail [OF len nth, of 1] pos t have
    "union_loop decoders u (length decoders) 1 [es ! 0] = Failure (Or ''union'' u es)"
    by simp
  with h pos show ?thesis by (simp add: union_def)
qed

lemma union_empty: "union [] u = Failure (Leaf ''never'' u)"
  by (simp add: union_def never_def)

text \<open>
  C2. A union of at least one member returns the result of the first member that
  succeeds, whatever the members after it are (they are not invoked: a later member that
  would raise does not change the result); when every member fails it fails with
  \<open>Or ''union'' u\<close> over the members' errors in declared order; and the union of no
  member fails with \<open>Leaf ''never'' u\<close> on every input.
\<close>

theorem union_first_success_or_all_errors:
  "((\<forall>p \<in> set before. is_Failure (p u)) \<and> d u = Success a \<longrightarrow>
      union (before @ d # after) u = Success a) \<and>
   (decoders \<noteq> [] \<and> map (\<lambda>d. d v) decoders = map Failure es \<longrightarrow>
      union decoders v = Failure (Or ''union'' v es)) \<and>
   union [] w = Failure (Leaf ''never'' w)"
  using union_first_success [of before u d a after] union_all_fail [of decoders v es]
    union_empty [of w]
  by blast

theorem union_first_success_or_all_errors_witness:
  "union [string, number, (\<lambda>u. Throws)] (JNum NaN) = Success (JNum NaN) \<and>
   union [string, number, boolean] JNull =
     Failure (Or ''union'' JNull
       [Leaf ''string'' JNull, Leaf ''number'' JNull, Leaf ''boolean'' JNull]) \<and>
   union [] JNull = Failure (Leaf ''never'' JNull)"
  using union_first_success_or_all_errors [of "[string]" "JNum NaN" number "JNum NaN"
      "[\<lambda>u. Throws]" "[string, number, boolean]" JNull
      "[Leaf ''string'' JNull, Leaf ''number'' JNull, Leaf ''boolean'' JNull]" JNull]
  by (simp add: string_def number_def boolean_def fromRefinement_def)

section \<open>Refinement\<close>

lemma number_decode:
  "number u = (if G_number u then Success u else Failure (Leaf ''number'' u))"
  by (simp add: number_def fromRefinement_def)

text \<open>
  C5. \<^verbatim>\<open>refinement(base, predicate, label)\<close> returns the failure of \<open>base\<close> unchanged when
  \<open>base\<close> fails; when \<open>base\<close> succeeds with \<open>b\<close> it fails with \<open>Leaf label b\<close>, reporting
  the decoded \<open>b\<close> and not the raw input, if the predicate is false on \<open>b\<close>, and succeeds
  with \<open>b\<close> if it is true. \<^verbatim>\<open>Int\<close> on a number that is not an integer fails with
  \<open>Leaf ''Int''\<close> of that number.
\<close>

theorem refinement_decode:
  "(base u = Failure e \<longrightarrow> refinement base predicate label u = Failure e) \<and>
   (base u = Success b \<and> \<not> predicate b \<longrightarrow>
      refinement base predicate label u = Failure (Leaf label b)) \<and>
   (base u = Success b \<and> predicate b \<longrightarrow> refinement base predicate label u = Success b) \<and>
   (\<not> isInteger n \<longrightarrow> Int_decoder (JNum n) = Failure (Leaf ''Int'' (JNum n)))"
  by (simp add: refinement_def Int_decoder_def number_decode)

theorem refinement_decode_witness:
  "refinement string (\<lambda>b. b = JStr ''a'') ''a'' JNull = Failure (Leaf ''string'' JNull) \<and>
   refinement (map_decoder string (\<lambda>b. JArr [b])) (\<lambda>b. b = JArr []) ''empty'' (JStr ''x'') =
     Failure (Leaf ''empty'' (JArr [JStr ''x''])) \<and>
   refinement (map_decoder string (\<lambda>b. JArr [b])) (\<lambda>b. b \<noteq> JArr []) ''non-empty'' (JStr ''x'') =
     Success (JArr [JStr ''x'']) \<and>
   Int_decoder (JNum (Finite (3 / 2))) = Failure (Leaf ''Int'' (JNum (Finite (3 / 2)))) \<and>
   Int_decoder (JNum NaN) = Failure (Leaf ''Int'' (JNum NaN))"
proof -
  have a: "string JNull = Failure (Leaf ''string'' JNull)"
    by (simp add: string_def fromRefinement_def)
  have b: "map_decoder string (\<lambda>b. JArr [b]) (JStr ''x'') = Success (JArr [JStr ''x''])"
    by (simp add: map_decoder_def string_def fromRefinement_def)
  have c: "\<not> isInteger (Finite (3 / 2))" "\<not> isInteger NaN" by code_simp+
  from refinement_decode [of string JNull "Leaf ''string'' JNull" "\<lambda>b. b = JStr ''a''" "''a''"
      JNull "Finite (3 / 2)"] a c
  have 1: "refinement string (\<lambda>b. b = JStr ''a'') ''a'' JNull = Failure (Leaf ''string'' JNull)"
    and 4: "Int_decoder (JNum (Finite (3 / 2))) = Failure (Leaf ''Int'' (JNum (Finite (3 / 2))))"
    by simp_all
  from refinement_decode [of "map_decoder string (\<lambda>b. JArr [b])" "JStr ''x''" undefined
      "\<lambda>b. b = JArr []" "''empty''" "JArr [JStr ''x'']" NaN] b c
  have 2: "refinement (map_decoder string (\<lambda>b. JArr [b])) (\<lambda>b. b = JArr []) ''empty'' (JStr ''x'') =
     Failure (Leaf ''empty'' (JArr [JStr ''x'']))"
    and 5: "Int_decoder (JNum NaN) = Failure (Leaf ''Int'' (JNum NaN))"
    by simp_all
  from refinement_decode [of "map_decoder string (\<lambda>b. JArr [b])" "JStr ''x''" undefined
      "\<lambda>b. b \<noteq> JArr []" "''non-empty''" "JArr [JStr ''x'']" NaN] b
  have 3: "refinement (map_decoder string (\<lambda>b. JArr [b])) (\<lambda>b. b \<noteq> JArr []) ''non-empty''
      (JStr ''x'') = Success (JArr [JStr ''x''])"
    by simp
  from 1 2 3 4 5 show ?thesis by simp
qed

section \<open>Tuples on short inputs\<close>






section \<open>The rendered report\<close>

lemma tree_lines_with_value:
  "tree_lines d (with_value v t) = (d, v) # concat (map (tree_lines (d + 1)) (forest t))"
  by (simp add: with_value_def)

lemma tree_lines_unfold:
  "tree_lines d t = (d, tree_value t) # concat (map (tree_lines (d + 1)) (forest t))"
  by (cases t) simp

lemma toTree_value: "tree_value (toTree js e) = node_line js e"
  by (cases e) (simp_all add: make_def)

lemma with_value_same: "with_value ([] @ tree_value t) t = t"
  by (cases t) (simp add: with_value_def)

lemma toTree_report:
  "tree_lines d (with_value (pre @ tree_value (toTree js e)) (toTree js e)) = spec_report js d pre e"
proof (induction js e arbitrary: d pre rule: toTree.induct)
  case (1 js x a)
  show ?case by (simp add: tree_lines_with_value make_def node_line_def)
next
  case (2 js x a errors)
  let ?f = "\<lambda>(i, e). with_value (''('' @ show_nat i @ '') '' @ tree_value (toTree js e)) (toTree js e)"
  let ?g = "\<lambda>(i, e). spec_report js (d + 1) (''('' @ show_nat i @ '') '') e"
  have "map (tree_lines (d + 1)) (map ?f errors) = map ?g errors"
    unfolding map_map map_eq_conv
  proof
    fix p assume p: "p \<in> set errors"
    obtain i e where ie: "p = (i, e)" by (cases p)
    from 2 [OF p [unfolded ie] refl, of "d + 1" "''('' @ show_nat i @ '') ''"]
    show "(tree_lines (d + 1) \<circ> ?f) p = ?g p"
      by (simp only: ie o_apply prod.case append_assoc)
  qed
  then show ?case
    by (simp add: tree_lines_with_value make_def node_line_def del: map_map)
next
  case (3 js x a errors)
  let ?f = "\<lambda>(k, e). with_value (''('' @ stringify_string k @ '') '' @ tree_value (toTree js e))
      (toTree js e)"
  let ?g = "\<lambda>(k, e). spec_report js (d + 1) (''('' @ stringify_string k @ '') '') e"
  have "map (tree_lines (d + 1)) (map ?f errors) = map ?g errors"
    unfolding map_map map_eq_conv
  proof
    fix p assume p: "p \<in> set errors"
    obtain k e where ke: "p = (k, e)" by (cases p)
    from 3 [OF p [unfolded ke] refl, of "d + 1" "''('' @ stringify_string k @ '') ''"]
    show "(tree_lines (d + 1) \<circ> ?f) p = ?g p"
      by (simp only: ke o_apply prod.case append_assoc)
  qed
  then show ?case
    by (simp add: tree_lines_with_value make_def node_line_def del: map_map)
next
  case (4 js x a errors)
  have "map (tree_lines (d + 1)) (map (toTree js) errors) = map (spec_report js (d + 1) []) errors"
    unfolding map_map map_eq_conv
  proof
    fix e assume e: "e \<in> set errors"
    from 4 [OF e, of "d + 1" "[]"]
    show "(tree_lines (d + 1) \<circ> toTree js) e = spec_report js (d + 1) [] e"
      by (simp only: o_apply with_value_same)
  qed
  then show ?case
    by (simp add: tree_lines_with_value make_def node_line_def del: map_map)
next
  case (5 js x a errors)
  have "map (tree_lines (d + 1)) (map (toTree js) errors) = map (spec_report js (d + 1) []) errors"
    unfolding map_map map_eq_conv
  proof
    fix e assume e: "e \<in> set errors"
    from 5 [OF e, of "d + 1" "[]"]
    show "(tree_lines (d + 1) \<circ> toTree js) e = spec_report js (d + 1) [] e"
      by (simp only: o_apply with_value_same)
  qed
  then show ?case
    by (simp add: tree_lines_with_value make_def node_line_def del: map_map)
qed

text \<open>
  C9. The rendering of an error is a tree of lines: each node reads
  \<^verbatim>\<open>Cannot decode <JSON of actual>, expected <expected>\<close>; a child of an \<open>Indexed\<close> node
  has its index in parentheses before that, a child of a \<open>Labeled\<close> node its quoted key in
  parentheses, a child of an \<open>And\<close> or \<open>Or\<close> node nothing; the children of a node are the
  renderings of its child errors, in order, one level below it. Drawn depth-first, the
  tree is the report the spec describes.
\<close>

theorem toTree_report_lines:
  "tree_value (toTree js e) =
     ''Cannot decode '' @ js (actual_of e) @ '', expected '' @ expected_of e \<and>
   forest (toTree js (Leaf x a)) = [] \<and>
   forest (toTree js (Indexed x a ies)) =
     map (\<lambda>(i, c). Tree (''('' @ show_nat i @ '') '' @ tree_value (toTree js c))
                      (forest (toTree js c))) ies \<and>
   forest (toTree js (Labeled x a kes)) =
     map (\<lambda>(k, c). Tree (''('' @ stringify_string k @ '') '' @ tree_value (toTree js c))
                      (forest (toTree js c))) kes \<and>
   forest (toTree js (And x a es)) = map (toTree js) es \<and>
   forest (toTree js (Or x a es)) = map (toTree js) es \<and>
   tree_lines d (toTree js e) = spec_report js d [] e"
proof -
  have "tree_lines d (toTree js e) = spec_report js d [] e"
    using toTree_report [of d "[]" js e] by (simp only: with_value_same)
  then show ?thesis
    by (simp add: toTree_value node_line_def make_def with_value_def)
qed

theorem toTree_report_lines_witness:
  "tree_lines 0 (toTree (\<lambda>v. ''null'')
      (Labeled ''type'' JNull
        [(''a'', Indexed ''array'' JNull [(12, Leaf ''string'' JNull)]),
         (''b'', Or ''union'' JNull [Leaf ''number'' JNull])])) =
     [(0, ''Cannot decode null, expected type''),
      (1, ''('' @ [CHR 0x22] @ ''a'' @ [CHR 0x22] @ '') Cannot decode null, expected array''),
      (2, ''(12) Cannot decode null, expected string''),
      (1, ''('' @ [CHR 0x22] @ ''b'' @ [CHR 0x22] @ '') Cannot decode null, expected union''),
      (2, ''Cannot decode null, expected number'')]"
proof -
  let ?js = "\<lambda>v :: jsv. ''null''"
  let ?e = "Labeled ''type'' JNull
        [(''a'', Indexed ''array'' JNull [(12, Leaf ''string'' JNull)]),
         (''b'', Or ''union'' JNull [Leaf ''number'' JNull])]"
  have "tree_lines 0 (toTree ?js ?e) = spec_report ?js 0 [] ?e"
    using toTree_report_lines [of ?js ?e undefined undefined "[]" "[]" "[]" 0] by blast
  also have "spec_report ?js 0 [] ?e =
     [(0, ''Cannot decode null, expected type''),
      (1, ''('' @ [CHR 0x22] @ ''a'' @ [CHR 0x22] @ '') Cannot decode null, expected array''),
      (2, ''(12) Cannot decode null, expected string''),
      (1, ''('' @ [CHR 0x22] @ ''b'' @ [CHR 0x22] @ '') Cannot decode null, expected union''),
      (2, ''Cannot decode null, expected number'')]"
    by (simp add: stringify_string_def quote_char_def show_nat.simps digit_def)
  finally show ?thesis .
qed

section \<open>Intersection\<close>






















section \<open>Tagged sums\<close>

lemma sum_decoder_record:
  "def \<noteq> [] \<Longrightarrow>
   sum_decoder tag def (JObject p r) =
     (case get (JObject p r) tag of
        JStr s \<Rightarrow>
          (case map_of def s of
             None \<Rightarrow>
               Failure (Labeled ''sum'' (JObject p r)
                 [(tag, Leaf (join '' | '' (map stringify_string (map fst def))) (JStr s))])
           | Some d \<Rightarrow>
               (case d (JObject p r) of
                  Throws \<Rightarrow> Throws
                | Failure e \<Rightarrow> Failure e
                | Success a \<Rightarrow>
                    (case assign_prop a tag s of
                       None \<Rightarrow> Throws
                     | Some a' \<Rightarrow> Success a')))
      | v \<Rightarrow>
          Failure (Labeled ''sum'' (JObject p r)
            [(tag, Leaf (join '' | '' (map stringify_string (map fst def))) v)]))"
proof -
  have own: "\<And>s. hasOwnProperty def s \<longleftrightarrow> map_of def s \<noteq> None"
    by (simp add: hasOwnProperty_def map_of_eq_None_iff)
  assume "def \<noteq> []"
  then show ?thesis
    by (cases "get (JObject p r) tag")
      (auto simp: sum_decoder_def Let_def UnknownRecord_def fromRefinement_def own
        split: option.splits)
qed

text \<open>
  What \<^verbatim>\<open>sum\<close> does on a record \<open>u\<close>, for a non-empty member mapping. When the
  discriminant value \<open>v\<close> of \<open>u\<close> is a string and a declared key, the member runs on the
  whole of \<open>u\<close>: its failure is returned unchanged, and when it succeeds with an ordinary
  object and the discriminant field is not \<^verbatim>\<open>__proto__\<close>, the result is that object with
  \<open>v\<close> assigned to the field. When \<open>v\<close> is absent, not a string or not a declared key,
  the result is \<open>Failure (Labeled ''sum'' u [(tag, Leaf keys v)])\<close> with \<open>keys\<close> the
  declared keys, each quoted, joined by \<^verbatim>\<open> | \<close>. A sum of no member fails as \<^verbatim>\<open>never\<close>
  does.
\<close>

lemma sum_decoder_cases:
  "(def \<noteq> [] \<and> get (JObject p r) tag = JStr s \<and> map_of def s = Some d \<and>
    d (JObject p r) = Failure e \<longrightarrow>
      sum_decoder tag def (JObject p r) = Failure e) \<and>
   (def \<noteq> [] \<and> get (JObject p r) tag = JStr s \<and> map_of def s = Some d \<and>
    d (JObject p r) = Success (JObject q ps) \<and> tag \<noteq> ''__proto__'' \<longrightarrow>
      sum_decoder tag def (JObject p r) = Success (JObject q (define_own tag (JStr s) ps)) \<and>
      get (JObject q (define_own tag (JStr s) ps)) tag = JStr s) \<and>
   (def \<noteq> [] \<and> (\<forall>k. get (JObject p r) tag = JStr k \<longrightarrow> k \<notin> set (map fst def)) \<longrightarrow>
      sum_decoder tag def (JObject p r) =
        Failure (Labeled ''sum'' (JObject p r)
          [(tag, Leaf (join '' | '' (map stringify_string (map fst def)))
                   (get (JObject p r) tag))])) \<and>
   sum_decoder tag [] u = Failure (Leaf ''never'' u)"
proof (intro conjI impI)
  assume "def \<noteq> [] \<and> get (JObject p r) tag = JStr s \<and> map_of def s = Some d \<and>
    d (JObject p r) = Failure e"
  then show "sum_decoder tag def (JObject p r) = Failure e"
    by (simp add: sum_decoder_record)
next
  assume "def \<noteq> [] \<and> get (JObject p r) tag = JStr s \<and> map_of def s = Some d \<and>
    d (JObject p r) = Success (JObject q ps) \<and> tag \<noteq> ''__proto__''"
  then show "sum_decoder tag def (JObject p r) =
      Success (JObject q (define_own tag (JStr s) ps))"
    by (simp add: sum_decoder_record set_property_plain object_value_def)
next
  show "get (JObject q (define_own tag (JStr s) ps)) tag = JStr s"
    by (rule get_own) (simp add: define_own_map_of)
next
  assume h: "def \<noteq> [] \<and> (\<forall>k. get (JObject p r) tag = JStr k \<longrightarrow> k \<notin> set (map fst def))"
  show "sum_decoder tag def (JObject p r) =
        Failure (Labeled ''sum'' (JObject p r)
          [(tag, Leaf (join '' | '' (map stringify_string (map fst def)))
                   (get (JObject p r) tag))])"
  proof (cases "get (JObject p r) tag")
    case (JStr k)
    with h have "map_of def k = None" by (simp add: map_of_eq_None_iff)
    with h JStr show ?thesis by (simp add: sum_decoder_record)
  qed (use h in \<open>simp_all add: sum_decoder_record\<close>)
next
  show "sum_decoder tag [] u = Failure (Leaf ''never'' u)"
    by (simp add: sum_decoder_def never_def)
qed

text \<open>
  The examples of the spec: on \<^verbatim>\<open>{_tag: "A", a: "x"}\<close> the sum succeeds with a record
  that has both fields, on \<^verbatim>\<open>{_tag: "B"}\<close> it fails at the discriminant.
\<close>

lemma sum_decoder_examples:
  "sum_decoder ''_tag'' [(''A'', type [(''a'', string)]), (''C'', never)]
       (JObj [(''_tag'', JStr ''A''), (''a'', JStr ''x'')]) =
     Success (JObj [(''a'', JStr ''x''), (''_tag'', JStr ''A'')]) \<and>
   sum_decoder ''_tag'' [(''A'', type [(''a'', string)]), (''C'', never)]
       (JObj [(''_tag'', JStr ''B'')]) =
     Failure (Labeled ''sum'' (JObj [(''_tag'', JStr ''B'')])
       [(''_tag'', Leaf ([CHR 0x22] @ ''A'' @ [CHR 0x22] @ '' | '' @ [CHR 0x22] @ ''C'' @ [CHR 0x22])
           (JStr ''B''))])"
proof -
  let ?def = "[(''A'', type [(''a'', string)]), (''C'', never)]"
  let ?r = "[(''_tag'', JStr ''A''), (''a'', JStr ''x'')]"
  have k: "array_index ''a'' = None" "array_index ''_tag'' = None"
    by (simp_all add: array_index_not_digit digit_value_def)
  have m: "type [(''a'', string)] (JObj ?r) = Success (JObj [(''a'', JStr ''x'')])"
    by (simp add: type_def UnknownRecord_def fromRefinement_def get_prop_def isNonEmpty_def
        string_def set_property_def new_object_def object_value_def define_own_def k)
  from sum_decoder_cases [of ?def ObjectPrototype ?r "''_tag''" "''A''" "type [(''a'', string)]"
      undefined ObjectPrototype "[(''a'', JStr ''x'')]" undefined] m
  have 1: "sum_decoder ''_tag'' ?def (JObj ?r) =
      Success (JObj [(''a'', JStr ''x''), (''_tag'', JStr ''A'')])"
    by (simp add: get_prop_def define_own_def k)
  from sum_decoder_cases [of ?def ObjectPrototype "[(''_tag'', JStr ''B'')]" "''_tag''" undefined
      undefined undefined ObjectPrototype "[]" undefined]
  have 2: "sum_decoder ''_tag'' ?def (JObj [(''_tag'', JStr ''B'')]) =
     Failure (Labeled ''sum'' (JObj [(''_tag'', JStr ''B'')])
       [(''_tag'', Leaf ([CHR 0x22] @ ''A'' @ [CHR 0x22] @ '' | '' @ [CHR 0x22] @ ''C'' @ [CHR 0x22])
           (JStr ''B''))])"
    by (simp add: get_prop_def stringify_string_def quote_char_def)
  from 1 2 show ?thesis by simp
qed

text \<open>
  C4. The claim has the output carry the discriminant value at the discriminant field
  whenever the member succeeds. The code assigns it with \<^verbatim>\<open>er.right[tag] = v\<close> and
  returns, whatever the member's value is.

  With the member \<^verbatim>\<open>map(type({value: number}), r => r.value)\<close> the input
  \<^verbatim>\<open>{_tag: "A", value: 3}\<close> makes the member succeed with the number \<open>3\<close>; the
  assignment to a property of a number raises, and \<^verbatim>\<open>decode\<close> returns no result.

  With the discriminant field \<^verbatim>\<open>__proto__\<close>, which a record read by \<^verbatim>\<open>JSON.parse\<close> can
  have, the assignment to the record the member built reaches the setter of
  \<^verbatim>\<open>Object.prototype\<close>, which ignores a string: \<^verbatim>\<open>decode\<close> succeeds with a record that
  has no such field.
\<close>

theorem sum_discriminant_not_written:
  "map_decoder (type [(''value'', number)]) (\<lambda>r. get r ''value'')
       (JObj [(''_tag'', JStr ''A''), (''value'', JNum (Finite 3))]) =
     Success (JNum (Finite 3)) \<and>
   sum_decoder ''_tag'' [(''A'', map_decoder (type [(''value'', number)]) (\<lambda>r. get r ''value''))]
       (JObj [(''_tag'', JStr ''A''), (''value'', JNum (Finite 3))]) = Throws \<and>
   get (JObj [(''__proto__'', JStr ''A''), (''a'', JStr ''x'')]) ''__proto__'' = JStr ''A'' \<and>
   type [(''a'', string)] (JObj [(''__proto__'', JStr ''A''), (''a'', JStr ''x'')]) =
     Success (JObj [(''a'', JStr ''x'')]) \<and>
   sum_decoder ''__proto__'' [(''A'', type [(''a'', string)])]
       (JObj [(''__proto__'', JStr ''A''), (''a'', JStr ''x'')]) =
     Success (JObj [(''a'', JStr ''x'')]) \<and>
   map_of [(''a'', JStr ''x'')] ''__proto__'' = None"
proof -
  let ?u = "JObj [(''__proto__'', JStr ''A''), (''a'', JStr ''x'')]"
  let ?w = "JObj [(''_tag'', JStr ''A''), (''value'', JNum (Finite 3))]"
  let ?m = "map_decoder (type [(''value'', number)]) (\<lambda>r. get r ''value'')"
  have k: "array_index ''a'' = None" "array_index ''value'' = None"
    by (simp_all add: array_index_not_digit digit_value_def)
  have m: "?m ?w = Success (JNum (Finite 3))"
    by (simp add: map_decoder_def type_def UnknownRecord_def get_prop_def number_def
        fromRefinement_def isNonEmpty_def set_property_def new_object_def object_value_def
        define_own_def k)
  have n: "sum_decoder ''_tag'' [(''A'', ?m)] ?w = Throws"
    by (simp add: sum_decoder_record get_prop_def m)
  have a: "get ?u ''__proto__'' = JStr ''A''" by (simp add: get_prop_def)
  have b: "type [(''a'', string)] ?u = Success (JObj [(''a'', JStr ''x'')])"
    by (simp add: type_def UnknownRecord_def get_prop_def string_def fromRefinement_def
        isNonEmpty_def set_property_def new_object_def object_value_def define_own_def k)
  have c: "sum_decoder ''__proto__'' [(''A'', type [(''a'', string)])] ?u =
      Success (JObj [(''a'', JStr ''x'')])"
    by (simp add: sum_decoder_record get_prop_def b set_property_def inherits_accessor_def
        object_value_def)
  from m n a b c show ?thesis by simp
qed

section \<open>Alternatives\<close>

lemma occurs_in_self: "occurs_in t t"
  by (cases t) simp_all

lemma alt_both_fail: "fx u = Failure e1 \<Longrightarrow> fy () u = Failure e2 \<Longrightarrow> alt fx fy u = Failure e2"
  by (simp add: alt_def)

text \<open>
  C7, as the code has it. When every member of a union fails, the returned failure is the
  \<open>Or\<close> node over the members' errors: each member's error occurs in it. The generic
  \<^verbatim>\<open>alt\<close>, when both alternatives fail, returns the failure of the second alternative
  alone.
\<close>

theorem alternatives_all_fail:
  "(decoders \<noteq> [] \<and> map (\<lambda>d. d u) decoders = map Failure es \<longrightarrow>
      union decoders u = Failure (Or ''union'' u es) \<and>
      list_all (\<lambda>e. occurs_in e (Or ''union'' u es)) es) \<and>
   (fx v = Failure e1 \<and> fy () v = Failure e2 \<longrightarrow> alt fx fy v = Failure e2)"
proof (intro conjI impI)
  assume "decoders \<noteq> [] \<and> map (\<lambda>d. d u) decoders = map Failure es"
  then show "union decoders u = Failure (Or ''union'' u es)"
    by (simp add: union_all_fail)
next
  show "list_all (\<lambda>e. occurs_in e (Or ''union'' u es)) es"
    using occurs_in_self by (auto simp: list_all_iff list_ex_iff)
next
  assume "fx v = Failure e1 \<and> fy () v = Failure e2"
  then show "alt fx fy v = Failure e2" by (simp add: alt_both_fail)
qed

theorem alternatives_all_fail_witness:
  "union [string, number] JNull =
     Failure (Or ''union'' JNull [Leaf ''string'' JNull, Leaf ''number'' JNull]) \<and>
   occurs_in (Leaf ''string'' JNull)
     (Or ''union'' JNull [Leaf ''string'' JNull, Leaf ''number'' JNull]) \<and>
   occurs_in (Leaf ''number'' JNull)
     (Or ''union'' JNull [Leaf ''string'' JNull, Leaf ''number'' JNull]) \<and>
   alt string (\<lambda>_. number) JNull = Failure (Leaf ''number'' JNull)"
proof -
  have s: "string JNull = Failure (Leaf ''string'' JNull)"
    and n: "number JNull = Failure (Leaf ''number'' JNull)"
    by (simp_all add: string_def number_def fromRefinement_def)
  from alternatives_all_fail [of "[string, number]" JNull
      "[Leaf ''string'' JNull, Leaf ''number'' JNull]" string JNull "Leaf ''string'' JNull"
      "\<lambda>_. number" "Leaf ''number'' JNull"] s n
  show ?thesis by simp
qed

text \<open>
  The claim as stated covers \<^verbatim>\<open>alt\<close>. With \<^verbatim>\<open>string\<close> as first alternative and \<^verbatim>\<open>zero\<close>
  as second, both fail on \<^verbatim>\<open>null\<close>, and the error of \<^verbatim>\<open>string\<close> is not in the result.
\<close>

theorem alt_discards_first_error:
  "string JNull = Failure (Leaf ''string'' JNull) \<and>
   zero_decoder () JNull = Failure (Leaf ''never'' JNull) \<and>
   alt string zero_decoder JNull = Failure (Leaf ''never'' JNull) \<and>
   \<not> occurs_in (Leaf ''string'' JNull) (Leaf ''never'' JNull)"
  by (simp add: alt_def string_def zero_decoder_def never_def fromRefinement_def)

section \<open>Composite errors are never empty\<close>

lemma soundD: "sound d \<Longrightarrow> d u = Failure e \<Longrightarrow> nonempty_errors e"
  by (simp add: sound_def)

lemma sound_fromRefinement: "sound (fromRefinement predicate expected)"
  by (auto simp: sound_def fromRefinement_def split: if_splits)

lemma sound_never: "sound never"
  by (auto simp: sound_def never_def)

lemma nonempty_set_expected: "nonempty_errors e \<Longrightarrow> nonempty_errors (set_expected x e)"
  by (cases e) simp_all

lemma sound_mapLeft:
  "sound decoder \<Longrightarrow> (\<And>e. nonempty_errors e \<Longrightarrow> nonempty_errors (f e)) \<Longrightarrow>
   sound (mapLeft decoder f)"
  by (auto simp: sound_def mapLeft_def split: option.splits sum.splits)

lemma sound_refinement: "sound decoder \<Longrightarrow> sound (refinement decoder predicate expected)"
  by (auto simp: sound_def refinement_def split: option.splits sum.splits if_splits)

lemma sound_map: "sound fa \<Longrightarrow> sound (map_decoder fa g)"
  by (auto simp: sound_def map_decoder_def split: option.splits sum.splits)

lemma sound_of: "sound (of_decoder a)"
  by (simp add: sound_def of_decoder_def)

lemma sound_alt: "sound fx \<Longrightarrow> sound (fy ()) \<Longrightarrow> sound (alt fx fy)"
  by (auto simp: sound_def alt_def split: option.splits sum.splits)

lemma sound_lazy: "sound (f ()) \<Longrightarrow> sound (lazy f)"
  by (simp add: sound_def lazy_def)

lemma type_loop_errors:
  "type_loop decoders r a es = Some (a', es') \<Longrightarrow>
   (\<And>k d. (k, d) \<in> set decoders \<Longrightarrow> sound d) \<Longrightarrow>
   list_all (\<lambda>p. nonempty_errors (snd p)) es \<Longrightarrow>
   list_all (\<lambda>p. nonempty_errors (snd p)) es'"
proof (induction decoders arbitrary: a es)
  case Nil
  then show ?case by simp
next
  case (Cons x decoders)
  obtain k d where x: "x = (k, d)" by (cases x)
  from Cons.prems(2) x have d: "sound d" and rest: "\<And>k d. (k, d) \<in> set decoders \<Longrightarrow> sound d"
    by auto
  show ?case
  proof (cases "d (get r k)")
    case None
    with Cons.prems(1) x show ?thesis by simp
  next
    case (Some s)
    show ?thesis
    proof (cases s)
      case (Inl e)
      with Some d have "nonempty_errors e" by (auto dest: soundD)
      with Cons.prems(3) have "list_all (\<lambda>p. nonempty_errors (snd p)) (es @ [(k, e)])" by simp
      moreover from Cons.prems(1) x Some Inl have
        "type_loop decoders r a (es @ [(k, e)]) = Some (a', es')" by simp
      ultimately show ?thesis using Cons.IH rest by blast
    next
      case (Inr v)
      with Cons.prems(1) x Some have
        "type_loop decoders r (set_property a k v) es = Some (a', es')" by simp
      with Cons.IH rest Cons.prems(3) show ?thesis by blast
    qed
  qed
qed

lemma partial_loop_errors:
  "partial_loop decoders r a es = Some (a', es') \<Longrightarrow>
   (\<And>k d. (k, d) \<in> set decoders \<Longrightarrow> sound d) \<Longrightarrow>
   list_all (\<lambda>p. nonempty_errors (snd p)) es \<Longrightarrow>
   list_all (\<lambda>p. nonempty_errors (snd p)) es'"
proof (induction decoders arbitrary: a es)
  case Nil
  then show ?case by simp
next
  case (Cons x decoders)
  obtain k d where x: "x = (k, d)" by (cases x)
  from Cons.prems(2) x have d: "sound d" and rest: "\<And>k d. (k, d) \<in> set decoders \<Longrightarrow> sound d"
    by auto
  show ?case
  proof (cases "get r k = JUndefined")
    case True
    with Cons.prems(1) x have "partial_loop decoders r a es = Some (a', es')" by simp
    with Cons.IH rest Cons.prems(3) show ?thesis by blast
  next
    case False
    show ?thesis
    proof (cases "d (get r k)")
      case None
      with Cons.prems(1) x False show ?thesis by simp
    next
      case (Some s)
      show ?thesis
      proof (cases s)
        case (Inl e)
        with Some d have "nonempty_errors e" by (auto dest: soundD)
        with Cons.prems(3) have "list_all (\<lambda>p. nonempty_errors (snd p)) (es @ [(k, e)])" by simp
        moreover from Cons.prems(1) x Some Inl False have
          "partial_loop decoders r a (es @ [(k, e)]) = Some (a', es')" by simp
        ultimately show ?thesis using Cons.IH rest by blast
      next
        case (Inr v)
        with Cons.prems(1) x Some False have
          "partial_loop decoders r (set_property a k v) es = Some (a', es')" by simp
        with Cons.IH rest Cons.prems(3) show ?thesis by blast
      qed
    qed
  qed
qed

lemma record_loop_errors:
  "record_loop ks decoder r a es = Some (a', es') \<Longrightarrow> sound decoder \<Longrightarrow>
   list_all (\<lambda>p. nonempty_errors (snd p)) es \<Longrightarrow>
   list_all (\<lambda>p. nonempty_errors (snd p)) es'"
proof (induction ks arbitrary: a es)
  case Nil
  then show ?case by simp
next
  case (Cons k ks)
  show ?case
  proof (cases "decoder (get r k)")
    case None
    with Cons.prems(1) show ?thesis by simp
  next
    case (Some s)
    show ?thesis
    proof (cases s)
      case (Inl e)
      with Some Cons.prems(2) have "nonempty_errors e" by (auto dest: soundD)
      with Cons.prems(3) have "list_all (\<lambda>p. nonempty_errors (snd p)) (es @ [(k, e)])" by simp
      moreover from Cons.prems(1) Some Inl have
        "record_loop ks decoder r a (es @ [(k, e)]) = Some (a', es')" by simp
      ultimately show ?thesis using Cons.IH Cons.prems(2) by blast
    next
      case (Inr v)
      with Cons.prems(1) Some have
        "record_loop ks decoder r (set_property a k v) es = Some (a', es')" by simp
      with Cons.IH Cons.prems(2,3) show ?thesis by blast
    qed
  qed
qed

lemma array_loop_errors:
  "array_loop decoder us len i a es = Some (a', es') \<Longrightarrow> sound decoder \<Longrightarrow>
   list_all (\<lambda>p. nonempty_errors (snd p)) es \<Longrightarrow>
   list_all (\<lambda>p. nonempty_errors (snd p)) es'"
proof (induction "len - i" arbitrary: i a es)
  case 0
  then have "\<not> i < len" by simp
  with "0.prems" show ?case by (simp add: array_loop.simps [of decoder us len i])
next
  case (Suc n)
  then have lt: "i < len" and n: "n = len - (i + 1)" by simp_all
  show ?case
  proof (cases "decoder (get_index us i)")
    case None
    with Suc.prems(1) lt show ?thesis by (simp add: array_loop.simps [of decoder us len i])
  next
    case (Some s)
    show ?thesis
    proof (cases s)
      case (Inl e)
      with Some Suc.prems(2) have "nonempty_errors e" by (auto dest: soundD)
      with Suc.prems(3) have "list_all (\<lambda>p. nonempty_errors (snd p)) (es @ [(i, e)])" by simp
      moreover from Suc.prems(1) Some Inl lt have
        "array_loop decoder us len (i + 1) a (es @ [(i, e)]) = Some (a', es')"
        by (simp add: array_loop.simps [of decoder us len i])
      ultimately show ?thesis using Suc.hyps(1) [OF n] Suc.prems(2) by blast
    next
      case (Inr v)
      with Suc.prems(1) Some lt have
        "array_loop decoder us len (i + 1) (a[i := v]) es = Some (a', es')"
        by (simp add: array_loop.simps [of decoder us len i])
      with Suc.hyps(1) [OF n] Suc.prems(2,3) show ?thesis by blast
    qed
  qed
qed

lemma tuple_loop_errors:
  "tuple_loop decoders us len i a es = Some (a', es') \<Longrightarrow>
   (\<And>j. j < len \<Longrightarrow> sound (decoders ! j)) \<Longrightarrow>
   list_all (\<lambda>p. nonempty_errors (snd p)) es \<Longrightarrow>
   list_all (\<lambda>p. nonempty_errors (snd p)) es'"
proof (induction "len - i" arbitrary: i a es)
  case 0
  then have "\<not> i < len" by simp
  with "0.prems" show ?case by (simp add: tuple_loop.simps [of decoders us len i])
next
  case (Suc n)
  then have lt: "i < len" and n: "n = len - (i + 1)" by simp_all
  from Suc.prems(2) lt have d: "sound (decoders ! i)" by simp
  show ?case
  proof (cases "(decoders ! i) (get_index us i)")
    case None
    with Suc.prems(1) lt show ?thesis by (simp add: tuple_loop.simps [of decoders us len i])
  next
    case (Some s)
    show ?thesis
    proof (cases s)
      case (Inl e)
      with Some d have "nonempty_errors e" by (auto dest: soundD)
      with Suc.prems(3) have "list_all (\<lambda>p. nonempty_errors (snd p)) (es @ [(i, e)])" by simp
      moreover from Suc.prems(1) Some Inl lt have
        "tuple_loop decoders us len (i + 1) a (es @ [(i, e)]) = Some (a', es')"
        by (simp add: tuple_loop.simps [of decoders us len i])
      ultimately show ?thesis using Suc.hyps(1) [OF n] Suc.prems(2) by blast
    next
      case (Inr v)
      with Suc.prems(1) Some lt have
        "tuple_loop decoders us len (i + 1) (a[i := v]) es = Some (a', es')"
        by (simp add: tuple_loop.simps [of decoders us len i])
      with Suc.hyps(1) [OF n] Suc.prems(2,3) show ?thesis by blast
    qed
  qed
qed

lemma intersection_loop_errors:
  "intersection_loop decoders u len i as es = Some (as', es') \<Longrightarrow>
   (\<And>j. j < len \<Longrightarrow> sound (decoders ! j)) \<Longrightarrow>
   list_all nonempty_errors es \<Longrightarrow> list_all nonempty_errors es'"
proof (induction "len - i" arbitrary: i as es)
  case 0
  then have "\<not> i < len" by simp
  with "0.prems" show ?case by (simp add: intersection_loop.simps [of decoders u len i])
next
  case (Suc n)
  then have lt: "i < len" and n: "n = len - (i + 1)" by simp_all
  from Suc.prems(2) lt have d: "sound (decoders ! i)" by simp
  show ?case
  proof (cases "(decoders ! i) u")
    case None
    with Suc.prems(1) lt show ?thesis
      by (simp add: intersection_loop.simps [of decoders u len i])
  next
    case (Some s)
    show ?thesis
    proof (cases s)
      case (Inl e)
      with Some d have "nonempty_errors e" by (auto dest: soundD)
      with Suc.prems(3) have "list_all nonempty_errors (es @ [e])" by simp
      moreover from Suc.prems(1) Some Inl lt have
        "intersection_loop decoders u len (i + 1) as (es @ [e]) = Some (as', es')"
        by (simp add: intersection_loop.simps [of decoders u len i])
      ultimately show ?thesis using Suc.hyps(1) [OF n] Suc.prems(2) by blast
    next
      case (Inr v)
      with Suc.prems(1) Some lt have
        "intersection_loop decoders u len (i + 1) (set_sparse as i v) es = Some (as', es')"
        by (simp add: intersection_loop.simps [of decoders u len i])
      with Suc.hyps(1) [OF n] Suc.prems(2,3) show ?thesis by blast
    qed
  qed
qed

lemma union_loop_errors:
  "union_loop decoders u len i es = Failure e \<Longrightarrow>
   (\<And>j. j < len \<Longrightarrow> sound (decoders ! j)) \<Longrightarrow>
   es \<noteq> [] \<Longrightarrow> list_all nonempty_errors es \<Longrightarrow> nonempty_errors e"
proof (induction "len - i" arbitrary: i es)
  case 0
  then have "\<not> i < len" by simp
  with "0.prems" show ?case by (auto simp: union_loop.simps [of decoders u len i])
next
  case (Suc n)
  then have lt: "i < len" and n: "n = len - (i + 1)" by simp_all
  from Suc.prems(2) lt have d: "sound (decoders ! i)" by simp
  show ?case
  proof (cases "(decoders ! i) u")
    case None
    with Suc.prems(1) lt show ?thesis by (simp add: union_loop.simps [of decoders u len i])
  next
    case (Some s)
    show ?thesis
    proof (cases s)
      case (Inl e')
      with Some d have "nonempty_errors e'" by (auto dest: soundD)
      with Suc.prems(4) have "list_all nonempty_errors (es @ [e'])" by simp
      moreover from Suc.prems(1) Some Inl lt have
        "union_loop decoders u len (i + 1) (es @ [e']) = Failure e"
        by (simp add: union_loop.simps [of decoders u len i])
      moreover have "es @ [e'] \<noteq> []" by simp
      ultimately show ?thesis using Suc.hyps(1) [OF n] Suc.prems(2) by blast
    next
      case (Inr v)
      with Suc.prems(1) Some lt show ?thesis
        by (simp add: union_loop.simps [of decoders u len i])
    qed
  qed
qed

lemma sound_type: "(\<And>k d. (k, d) \<in> set decoders \<Longrightarrow> sound d) \<Longrightarrow> sound (type decoders)"
  unfolding sound_def [of "type decoders"]
proof (intro allI impI)
  fix u e
  assume s: "\<And>k d. (k, d) \<in> set decoders \<Longrightarrow> sound d" and f: "type decoders u = Failure e"
  show "nonempty_errors e"
  proof (cases "G_UnknownRecord u")
    case False
    with f show ?thesis by (auto simp: type_def UnknownRecord_def fromRefinement_def)
  next
    case True
    with f obtain a es where l: "type_loop decoders u new_object [] = Some (a, es)"
      and e: "isNonEmpty es" "e = Labeled ''type'' u es"
      by (auto simp: type_def UnknownRecord_def fromRefinement_def
          split: option.splits if_splits)
    from type_loop_errors [OF l s] have "list_all (\<lambda>p. nonempty_errors (snd p)) es" by simp
    with e show ?thesis by (auto simp: isNonEmpty_def)
  qed
qed

lemma sound_partial:
  "(\<And>k d. (k, d) \<in> set decoders \<Longrightarrow> sound d) \<Longrightarrow> sound (partial decoders)"
  unfolding sound_def [of "partial decoders"]
proof (intro allI impI)
  fix u e
  assume s: "\<And>k d. (k, d) \<in> set decoders \<Longrightarrow> sound d" and f: "partial decoders u = Failure e"
  show "nonempty_errors e"
  proof (cases "G_UnknownRecord u")
    case False
    with f show ?thesis by (auto simp: partial_def UnknownRecord_def fromRefinement_def)
  next
    case True
    with f obtain a es where l: "partial_loop decoders u new_object [] = Some (a, es)"
      and e: "isNonEmpty es" "e = Labeled ''partial'' u es"
      by (auto simp: partial_def UnknownRecord_def fromRefinement_def
          split: option.splits if_splits)
    from partial_loop_errors [OF l s] have "list_all (\<lambda>p. nonempty_errors (snd p)) es" by simp
    with e show ?thesis by (auto simp: isNonEmpty_def)
  qed
qed

lemma sound_record: "sound decoder \<Longrightarrow> sound (record_decoder decoder)"
  unfolding sound_def [of "record_decoder decoder"]
proof (intro allI impI)
  fix u e
  assume s: "sound decoder" and f: "record_decoder decoder u = Failure e"
  show "nonempty_errors e"
  proof (cases "G_UnknownRecord u")
    case False
    with f show ?thesis by (auto simp: record_decoder_def UnknownRecord_def fromRefinement_def)
  next
    case True
    with f obtain a es where
      l: "record_loop (for_in_keys u) decoder u new_object [] = Some (a, es)"
      and e: "isNonEmpty es" "e = Labeled ''record'' u es"
      by (auto simp: record_decoder_def UnknownRecord_def fromRefinement_def
          split: option.splits if_splits)
    from record_loop_errors [OF l s] have "list_all (\<lambda>p. nonempty_errors (snd p)) es" by simp
    with e show ?thesis by (auto simp: isNonEmpty_def)
  qed
qed

lemma sound_array: "sound decoder \<Longrightarrow> sound (array decoder)"
  unfolding sound_def [of "array decoder"]
proof (intro allI impI)
  fix u e
  assume s: "sound decoder" and f: "array decoder u = Failure e"
  show "nonempty_errors e"
  proof (cases "G_UnknownArray u")
    case False
    with f show ?thesis by (auto simp: array_def UnknownArray_def fromRefinement_def)
  next
    case True
    with f obtain a es where
      l: "array_loop decoder (as_array u) (length (as_array u)) 0
            (replicate (length (as_array u)) JUndefined) [] = Some (a, es)"
      and e: "isNonEmpty es" "e = Indexed ''array'' u es"
      by (auto simp: array_def UnknownArray_def fromRefinement_def Let_def
          split: option.splits if_splits)
    from array_loop_errors [OF l s] have "list_all (\<lambda>p. nonempty_errors (snd p)) es" by simp
    with e show ?thesis by (auto simp: isNonEmpty_def)
  qed
qed

lemma sound_tuple: "(\<And>d. d \<in> set decoders \<Longrightarrow> sound d) \<Longrightarrow> sound (tuple decoders)"
  unfolding sound_def [of "tuple decoders"]
proof (intro allI impI)
  fix u e
  assume s: "\<And>d. d \<in> set decoders \<Longrightarrow> sound d" and f: "tuple decoders u = Failure e"
  then have s': "\<And>j. j < length decoders \<Longrightarrow> sound (decoders ! j)" by simp
  show "nonempty_errors e"
  proof (cases "G_UnknownArray u")
    case False
    with f show ?thesis by (auto simp: tuple_def UnknownArray_def fromRefinement_def)
  next
    case True
    with f obtain a es where
      l: "tuple_loop decoders (as_array u) (length decoders) 0
            (replicate (length decoders) JUndefined) [] = Some (a, es)"
      and e: "isNonEmpty es" "e = Indexed ''tuple'' u es"
      by (auto simp: tuple_def UnknownArray_def fromRefinement_def Let_def
          split: option.splits if_splits)
    from tuple_loop_errors [OF l s'] have "list_all (\<lambda>p. nonempty_errors (snd p)) es" by simp
    with e show ?thesis by (auto simp: isNonEmpty_def)
  qed
qed

lemma sound_intersection:
  "(\<And>d. d \<in> set decoders \<Longrightarrow> sound d) \<Longrightarrow> sound (intersection decoders)"
  unfolding sound_def [of "intersection decoders"]
proof (intro allI impI)
  fix u e
  assume s: "\<And>d. d \<in> set decoders \<Longrightarrow> sound d" and f: "intersection decoders u = Failure e"
  then have s': "\<And>j. j < length decoders \<Longrightarrow> sound (decoders ! j)" by simp
  from f obtain as es where
    l: "intersection_loop decoders u (length decoders) 0 [] [] = Some (as, es)"
    and e: "isNonEmpty es" "e = And ''intersection'' u es"
    by (auto simp: intersection_def Let_def split: option.splits if_splits)
  from intersection_loop_errors [OF l s'] have "list_all nonempty_errors es" by simp
  with e show "nonempty_errors e" by (auto simp: isNonEmpty_def)
qed

lemma sound_union: "(\<And>d. d \<in> set decoders \<Longrightarrow> sound d) \<Longrightarrow> sound (union decoders)"
  unfolding sound_def [of "union decoders"]
proof (intro allI impI)
  fix u e
  assume s: "\<And>d. d \<in> set decoders \<Longrightarrow> sound d" and f: "union decoders u = Failure e"
  then have s': "\<And>j. j < length decoders \<Longrightarrow> sound (decoders ! j)" by simp
  show "nonempty_errors e"
  proof (cases "decoders = []")
    case True
    with f show ?thesis by (auto simp: union_def never_def)
  next
    case False
    with f obtain e0 where h: "(decoders ! 0) u = Failure e0"
      and l: "union_loop decoders u (length decoders) 1 [e0] = Failure e"
      by (auto simp: union_def split: option.splits sum.splits)
    from False s' [of 0] h have "nonempty_errors e0" by (auto dest: soundD)
    with union_loop_errors [OF l s'] show ?thesis by simp
  qed
qed

lemma sound_sum: "(\<And>k d. (k, d) \<in> set def \<Longrightarrow> sound d) \<Longrightarrow> sound (sum_decoder tag def)"
  unfolding sound_def [of "sum_decoder tag def"]
proof (intro allI impI)
  fix u e
  assume s: "\<And>k d. (k, d) \<in> set def \<Longrightarrow> sound d" and f: "sum_decoder tag def u = Failure e"
  show "nonempty_errors e"
  proof (cases "def = []")
    case True
    with f show ?thesis by (auto simp: sum_decoder_def never_def)
  next
    case False
    show ?thesis
    proof (cases u)
      case (JObject p r)
      from f [unfolded JObject sum_decoder_record [OF False]] s show ?thesis
        by (auto split: jsv.splits option.splits sum.splits dest: map_of_SomeD soundD)
    qed (use f False in \<open>auto simp: sum_decoder_def Let_def UnknownRecord_def fromRefinement_def\<close>)
  qed
qed

lemma engine_sound: "engine d \<Longrightarrow> sound d"
proof (induction rule: engine.induct)
  case (e_literals showLiteral as)
  show ?case by (simp add: literals_def sound_fromRefinement)
next
  case e_Int
  show ?case by (simp add: Int_decoder_def number_def sound_refinement sound_fromRefinement)
next
  case (e_mapLeft decoder f)
  then show ?case by (simp add: sound_mapLeft)
next
  case (e_withExpected decoder expected)
  then show ?case by (simp add: withExpected_def sound_mapLeft nonempty_set_expected)
next
  case (e_type decoders)
  then show ?case by (simp add: sound_type)
next
  case (e_partial decoders)
  then show ?case by (simp add: sound_partial)
next
  case (e_tuple decoders)
  then show ?case by (simp add: sound_tuple)
next
  case (e_intersection decoders)
  then show ?case by (simp add: sound_intersection)
next
  case (e_sum "def" tag)
  then show ?case by (simp add: sound_sum)
next
  case (e_union decoders)
  then show ?case by (simp add: sound_union)
next
  case (e_literalsOr decoder showLiteral as)
  then show ?case
    unfolding literalsOr_def literals_def
    by (intro sound_union) (auto simp: sound_fromRefinement)
qed (simp_all add: sound_fromRefinement sound_never string_def number_def boolean_def
    UnknownArray_def UnknownRecord_def sound_refinement sound_record sound_array sound_lazy
    sound_map sound_of sound_alt zero_decoder_def)

text \<open>
  C8. Every error a decoder built from the constructors of the source fails with
  satisfies the invariant: each \<open>Indexed\<close>, \<open>Labeled\<close>, \<open>And\<close> and \<open>Or\<close> node of the tree
  has at least one child error.
\<close>

theorem engine_errors_nonempty:
  "engine d \<Longrightarrow> d u = Failure e \<Longrightarrow> nonempty_errors e"
  using engine_sound [of d] by (simp add: sound_def)

theorem engine_errors_nonempty_witness:
  "engine (type [(''a'', union [string, array number])]) \<and>
   type [(''a'', union [string, array number])] (JObj [(''a'', JArr [JNull])]) =
     Failure (Labeled ''type'' (JObj [(''a'', JArr [JNull])])
       [(''a'', Or ''union'' (JArr [JNull])
          [Leaf ''string'' (JArr [JNull]),
           Indexed ''array'' (JArr [JNull]) [(0, Leaf ''number'' JNull)]])]) \<and>
   nonempty_errors (Labeled ''type'' (JObj [(''a'', JArr [JNull])])
       [(''a'', Or ''union'' (JArr [JNull])
          [Leaf ''string'' (JArr [JNull]),
           Indexed ''array'' (JArr [JNull]) [(0, Leaf ''number'' JNull)]])])"
proof -
  let ?d = "type [(''a'', union [string, array number])]"
  let ?u = "JObj [(''a'', JArr [JNull])]"
  let ?e = "Labeled ''type'' ?u
       [(''a'', Or ''union'' (JArr [JNull])
          [Leaf ''string'' (JArr [JNull]),
           Indexed ''array'' (JArr [JNull]) [(0, Leaf ''number'' JNull)]])]"
  have en: "engine ?d"
    by (auto intro!: engine.intros)
  have a: "array number (JArr [JNull]) =
      Failure (Indexed ''array'' (JArr [JNull]) [(0, Leaf ''number'' JNull)])"
    by (simp add: array_def UnknownArray_def fromRefinement_def number_def isNonEmpty_def
        get_index_def array_loop.simps)
  have un: "union [string, array number] (JArr [JNull]) =
      Failure (Or ''union'' (JArr [JNull])
          [Leaf ''string'' (JArr [JNull]),
           Indexed ''array'' (JArr [JNull]) [(0, Leaf ''number'' JNull)]])"
    by (simp add: union_def a string_def fromRefinement_def union_loop.simps)
  have f: "?d ?u = Failure ?e"
    by (simp add: type_def UnknownRecord_def fromRefinement_def get_prop_def isNonEmpty_def un)
  from engine_errors_nonempty [OF en f] en f show ?thesis by simp
qed

section \<open>What decoding does to the input\<close>

text \<open>
  C6. The claim has \<^verbatim>\<open>decode\<close> leave the input as it was. \<^verbatim>\<open>sum\<close> assigns the
  discriminant to the value its member returned, in the store, and that value can be an
  object that existed before the call.

  The first input is an object with no own property whose prototype has \<^verbatim>\<open>t: "A"\<close>, as
  \<^verbatim>\<open>Object.create({t: "A"})\<close> makes it. The discriminant is read through the prototype, the
  member \<^verbatim>\<open>UnknownRecord\<close> returns the input itself, and the assignment adds the own
  property \<^verbatim>\<open>t\<close> to the input.

  The second input is \<^verbatim>\<open>{t: "A", p: {}}\<close>, with the member
  \<^verbatim>\<open>map(UnknownRecord, r => r.p)\<close>: the assignment adds \<^verbatim>\<open>t\<close> to the object \<^verbatim>\<open>p\<close>
  refers to.
\<close>

theorem sum_assigns_into_input:
  "lookup [HObject ObjectPrototype [(''t'', HStr ''A'')], HObject (Proto (HRef 0)) []] 1 =
     Some (HObject (Proto (HRef 0)) []) \<and>
   h_get [HObject ObjectPrototype [(''t'', HStr ''A'')], HObject (Proto (HRef 0)) []]
       (HRef 1) ''t'' = HStr ''A'' \<and>
   h_sum ''t'' [(''A'', h_UnknownRecord)] (HRef 1)
       [HObject ObjectPrototype [(''t'', HStr ''A'')], HObject (Proto (HRef 0)) []] =
     (Success (HRef 1),
      [HObject ObjectPrototype [(''t'', HStr ''A'')],
       HObject (Proto (HRef 0)) [(''t'', HStr ''A'')]]) \<and>
   h_sum ''t'' [(''A'', h_map h_UnknownRecord (project_prop ''p''))] (HRef 1)
       [HObject ObjectPrototype [],
        HObject ObjectPrototype [(''t'', HStr ''A''), (''p'', HRef 0)]] =
     (Success (HRef 0),
      [HObject ObjectPrototype [(''t'', HStr ''A'')],
       HObject ObjectPrototype [(''t'', HStr ''A''), (''p'', HRef 0)]])"
proof -
  have k: "array_index ''t'' = None"
    by (simp add: array_index_not_digit digit_value_def)
  note defs = h_sum_def Let_def h_UnknownRecord_def h_fromRefinement_def h_G_UnknownRecord_def
    lookup_def h_get_def hasOwnProperty_def h_assign_prop_def h_map_def project_prop_def
    define_own_def k
  show ?thesis by (simp add: defs)
qed

end
